theory Spec2Isabelle
  imports Main "HOL-Library.Word" "HOL-Library.Multiset"
begin

section \<open>Literals, truth values and machine integers\<close>

text \<open>
  The model follows \<^verbatim>\<open>src/sat/ba_solver.cpp\<close>. C++ \<^verbatim>\<open>unsigned\<close> is a 32-bit word
  (arithmetic wraps), \<^verbatim>\<open>int64\<close> is an unbounded \<open>int\<close> (signed overflow is undefined
  behaviour in C++, so the model covers the executions without it), array positions
  and Boolean variables are natural numbers.
\<close>

type_synonym u32 = "32 word"
type_synonym bool_var = nat

text \<open>
  Modelled from the spec: \<^verbatim>\<open>sat_types.h\<close> is absent. A literal is a Boolean variable
  plus a sign bit; negation flips the sign bit; the null literal is a literal of the
  reserved variable \<open>null_bool_var\<close>.
\<close>

datatype literal = Lit (var: bool_var) (sign: bool)

definition neg :: "literal \<Rightarrow> literal" where
  "neg l = Lit (var l) (\<not> sign l)"

definition null_bool_var :: bool_var where
  "null_bool_var = 2147483647"

definition null_literal :: literal where
  "null_literal = Lit null_bool_var False"

datatype lbool = l_false | l_undef | l_true

definition INT_MAX :: int where "INT_MAX = 2147483647"
definition INT_MIN :: int where "INT_MIN = - 2147483648"
definition UINT_MAX :: int where "UINT_MAX = 4294967295"

section \<open>Constraints\<close>

text \<open>
  Modelled from the spec: the class declarations of \<^verbatim>\<open>ba_solver.h\<close> are absent. Every
  constraint carries the header fields (id, reifying literal, removal and learned flags,
  glue, psm); \<open>card\<close> and \<open>pb\<close> share the threshold \<open>k\<close> of \<^verbatim>\<open>pb_base\<close>. The size of
  a constraint is the length of its body, and \<^verbatim>\<open>swap(i, j)\<close> exchanges two positions of
  the body.
\<close>

record constraint =
  m_id :: nat
  m_lit :: literal
  m_removed :: bool
  m_learned :: bool
  m_glue :: u32
  m_psm :: u32

record pb_base = constraint +
  m_k :: u32

record card = pb_base +
  m_lits :: "literal list"

type_synonym wliteral = "u32 \<times> literal"

record pb = pb_base +
  m_wlits :: "wliteral list"
  m_slack :: u32
  m_num_watch :: nat
  m_max_sum :: u32

record xor = constraint +
  m_xlits :: "literal list"

datatype constraint_obj = Card card | Pb pb | Xor xor

definition swap_at :: "'a list \<Rightarrow> nat \<Rightarrow> nat \<Rightarrow> 'a list" where
  "swap_at xs i j = xs[i := xs ! j, j := xs ! i]"

definition card_size :: "card \<Rightarrow> nat" where
  "card_size c = length (m_lits c)"

definition pb_size :: "pb \<Rightarrow> nat" where
  "pb_size p = length (m_wlits p)"

subsection \<open>\<^verbatim>\<open>card::negate\<close> and \<^verbatim>\<open>pb::negate\<close>\<close>

text \<open>
  \<^verbatim>\<open>card::negate\<close>: negate the reifier and every literal, \<^verbatim>\<open>m_k = m_size - m_k + 1\<close>
  in unsigned arithmetic.
\<close>

definition card_negate :: "card \<Rightarrow> card" where
  "card_negate c =
     c\<lparr> m_lit := neg (m_lit c),
        m_k := of_nat (length (m_lits c)) - m_k c + 1,
        m_lits := map neg (m_lits c) \<rparr>"

text \<open>
  \<^verbatim>\<open>pb::negate\<close>: negate the reifier and every literal while summing the weights into the
  unsigned \<^verbatim>\<open>w\<close>, then \<^verbatim>\<open>m_k = w - m_k + 1\<close>.
\<close>

fun pb_negate_loop :: "wliteral list \<Rightarrow> u32 \<Rightarrow> wliteral list \<times> u32" where
  "pb_negate_loop [] w = ([], w)"
| "pb_negate_loop ((a, l) # wls) w =
     (case pb_negate_loop wls (w + a) of (wls', w') \<Rightarrow> ((a, neg l) # wls', w'))"

definition pb_negate :: "pb \<Rightarrow> pb" where
  "pb_negate p =
     (case pb_negate_loop (m_wlits p) 0 of
        (wls, w) \<Rightarrow> p\<lparr> m_lit := neg (m_lit p), m_k := w - m_k p + 1, m_wlits := wls \<rparr>)"

section \<open>The SAT core and the extension state\<close>

text \<open>
  Modelled from the spec: the CDCL core (\<^verbatim>\<open>sat::solver\<close>) is absent; the extension reads
  its assignment, levels, trail, justifications and marks, and writes them only through
  \<^verbatim>\<open>assign\<close>, \<^verbatim>\<open>set_conflict\<close>, \<^verbatim>\<open>mk_clause\<close>, \<^verbatim>\<open>mark\<close>/\<^verbatim>\<open>reset_mark\<close>, \<^verbatim>\<open>set_external\<close> and the
  watch lists. A justification records why a literal is true: nothing, a binary or ternary
  clause, a long clause (by its offset), or an extension constraint (by its index).
\<close>

datatype justification =
    J_NONE
  | J_BINARY literal
  | J_TERNARY literal literal
  | J_CLAUSE nat
  | J_EXT nat

datatype error = default_exception | out_of_bounds | exit_called

record solver =
  m_assignment :: "bool_var \<Rightarrow> lbool"
  m_level :: "bool_var \<Rightarrow> nat"
  m_justification :: "bool_var \<Rightarrow> justification"
  m_trail :: "literal list"
  m_mark :: "bool_var \<Rightarrow> bool"
  m_inconsistent :: bool
  m_conflict :: justification
  m_not_l :: literal
  m_scope_lvl :: nat
  m_core_lemma :: "literal list"
  m_cls :: "nat \<Rightarrow> literal list"
  m_new_clauses :: "(literal list \<times> bool) list"
  m_external :: "bool_var \<Rightarrow> bool"
  m_watches :: "literal \<Rightarrow> nat list"

record stats =
  m_num_propagations :: nat
  m_num_conflicts :: nat
  m_num_resolves :: nat
  m_num_cut :: nat

text \<open>
  The fields of \<^verbatim>\<open>ba_solver\<close> that the modelled functions touch. Constraint objects live in
  \<open>m_cstore\<close> under their index (the external justification identifier); \<open>m_constraints\<close>
  and \<open>m_learned_v\<close> (the vector \<^verbatim>\<open>m_learned\<close>) hold indices.
\<close>

record ba_solver =
  s :: solver
  m_cstore :: "nat \<Rightarrow> constraint_obj option"
  m_constraints :: "nat list"
  m_learned_v :: "nat list"
  m_constraint_to_reinit :: "nat list"
  m_constraint_to_reinit_lim :: "nat list"
  m_constraint_to_reinit_last_sz :: nat
  m_constraint_id :: nat
  m_coeffs :: "bool_var \<Rightarrow> int"
  m_active_vars :: "bool_var list"
  m_bound :: u32
  m_overflow :: bool
  m_num_marks :: u32
  m_conflict_lvl :: nat
  m_lemma :: "literal list"
  m_a_max :: u32
  m_pb_undef :: "nat list"
  m_num_propagations_since_pop :: u32
  m_stats :: stats
  m_parity_marks :: "bool_var \<Rightarrow> u32"
  m_parity_trail :: "literal list"

subsection \<open>Core operations\<close>

definition var_value :: "solver \<Rightarrow> bool_var \<Rightarrow> lbool" where
  "var_value c v = m_assignment c v"

definition lit_value :: "solver \<Rightarrow> literal \<Rightarrow> lbool" where
  "lit_value c l =
     (case m_assignment c (var l) of
        l_undef \<Rightarrow> l_undef
      | l_true \<Rightarrow> (if sign l then l_false else l_true)
      | l_false \<Rightarrow> (if sign l then l_true else l_false))"

definition lvl :: "solver \<Rightarrow> literal \<Rightarrow> nat" where
  "lvl c l = m_level c (var l)"

definition core_set_conflict :: "justification \<Rightarrow> literal \<Rightarrow> solver \<Rightarrow> solver" where
  "core_set_conflict j not_l c =
     (if m_inconsistent c then c
      else c\<lparr> m_inconsistent := True, m_conflict := j, m_not_l := not_l \<rparr>)"

definition assign_core :: "literal \<Rightarrow> justification \<Rightarrow> solver \<Rightarrow> solver" where
  "assign_core l j c =
     c\<lparr> m_assignment := (m_assignment c)(var l := (if sign l then l_false else l_true)),
        m_justification := (m_justification c)(var l := j),
        m_level := (m_level c)(var l := m_scope_lvl c),
        m_trail := m_trail c @ [l] \<rparr>"

definition core_assign :: "literal \<Rightarrow> justification \<Rightarrow> solver \<Rightarrow> solver" where
  "core_assign l j c =
     (case lit_value c l of
        l_false \<Rightarrow> core_set_conflict j (neg l) c
      | l_undef \<Rightarrow> assign_core l j c
      | l_true \<Rightarrow> c)"

definition mk_clause :: "literal list \<Rightarrow> bool \<Rightarrow> solver \<Rightarrow> solver" where
  "mk_clause lits learned c = c\<lparr> m_new_clauses := m_new_clauses c @ [(lits, learned)] \<rparr>"

definition set_external :: "bool_var \<Rightarrow> solver \<Rightarrow> solver" where
  "set_external v c = c\<lparr> m_external := (m_external c)(v := True) \<rparr>"

definition mark :: "bool_var \<Rightarrow> solver \<Rightarrow> solver" where
  "mark v c = c\<lparr> m_mark := (m_mark c)(v := True) \<rparr>"

definition reset_mark :: "bool_var \<Rightarrow> solver \<Rightarrow> solver" where
  "reset_mark v c = c\<lparr> m_mark := (m_mark c)(v := False) \<rparr>"

definition is_marked :: "solver \<Rightarrow> bool_var \<Rightarrow> bool" where
  "is_marked c v = m_mark c v"

subsection \<open>Extension helpers: \<^verbatim>\<open>value\<close>, \<^verbatim>\<open>inconsistent\<close>, watches, \<^verbatim>\<open>set_conflict\<close>, \<^verbatim>\<open>assign\<close>\<close>

definition inconsistent :: "ba_solver \<Rightarrow> bool" where
  "inconsistent st = m_inconsistent (s st)"

definition watch_literal :: "literal \<Rightarrow> nat \<Rightarrow> ba_solver \<Rightarrow> ba_solver" where
  "watch_literal lit idx st =
     st\<lparr> s := (s st)\<lparr> m_watches := (m_watches (s st))(neg lit := m_watches (s st) (neg lit) @ [idx]) \<rparr> \<rparr>"

definition unwatch_literal :: "literal \<Rightarrow> nat \<Rightarrow> ba_solver \<Rightarrow> ba_solver" where
  "unwatch_literal lit idx st =
     st\<lparr> s := (s st)\<lparr> m_watches := (m_watches (s st))(neg lit := remove1 idx (m_watches (s st) (neg lit))) \<rparr> \<rparr>"

definition is_watched :: "ba_solver \<Rightarrow> literal \<Rightarrow> nat \<Rightarrow> bool" where
  "is_watched st lit idx = (idx \<in> set (m_watches (s st) (neg lit)))"

text \<open>
  \<^verbatim>\<open>ba_solver::set_conflict(constraint&, literal)\<close>: count the conflict, flip the literal of
  an xor constraint when it is true, and report the conflict to the core with the
  constraint as justification.
\<close>

definition set_conflict :: "bool \<Rightarrow> nat \<Rightarrow> literal \<Rightarrow> ba_solver \<Rightarrow> ba_solver" where
  "set_conflict is_xor idx lit st =
     (let st1 = st\<lparr> m_stats := (m_stats st)\<lparr> m_num_conflicts := m_num_conflicts (m_stats st) + 1 \<rparr> \<rparr>;
          lit1 = (if is_xor \<and> lit_value (s st1) lit = l_true then neg lit else lit)
      in st1\<lparr> s := core_set_conflict (J_EXT idx) (neg lit1) (s st1) \<rparr>)"

text \<open>
  \<^verbatim>\<open>ba_solver::assign(constraint&, literal)\<close>: nothing when the solver is already
  inconsistent or the literal is true, a conflict when it is false, otherwise one
  propagation handed to the core. (DRAT logging is output only and left out.)
\<close>

definition assign :: "bool \<Rightarrow> nat \<Rightarrow> literal \<Rightarrow> ba_solver \<Rightarrow> ba_solver" where
  "assign is_xor idx lit st =
     (if inconsistent st then st
      else case lit_value (s st) lit of
        l_true \<Rightarrow> st
      | l_false \<Rightarrow> set_conflict is_xor idx lit st
      | l_undef \<Rightarrow>
          (let st1 = st\<lparr> m_stats := (m_stats st)\<lparr> m_num_propagations := m_num_propagations (m_stats st) + 1 \<rparr>,
                         m_num_propagations_since_pop := m_num_propagations_since_pop st + 1 \<rparr>
           in st1\<lparr> s := core_assign lit (J_EXT idx) (s st1) \<rparr>))"

fun assign_all :: "bool \<Rightarrow> nat \<Rightarrow> literal list \<Rightarrow> ba_solver \<Rightarrow> ba_solver" where
  "assign_all is_xor idx [] st = st"
| "assign_all is_xor idx (l # ls) st = assign_all is_xor idx ls (assign is_xor idx l st)"

fun watch_all :: "literal list \<Rightarrow> nat \<Rightarrow> ba_solver \<Rightarrow> ba_solver" where
  "watch_all [] idx st = st"
| "watch_all (l # ls) idx st = watch_all ls idx (watch_literal l idx st)"

fun unwatch_all :: "literal list \<Rightarrow> nat \<Rightarrow> ba_solver \<Rightarrow> ba_solver" where
  "unwatch_all [] idx st = st"
| "unwatch_all (l # ls) idx st = unwatch_all ls idx (unwatch_literal l idx st)"

subsection \<open>Absent collaborators\<close>

text \<open>
  Functions that the modelled code calls and whose definitions are absent (the xor
  constraint's \<^verbatim>\<open>negate\<close> of \<^verbatim>\<open>ba_solver.h\<close>, the core's \<^verbatim>\<open>num_diff_false_levels_below\<close>,
  \<^verbatim>\<open>num_diff_levels\<close> and \<^verbatim>\<open>get_max_lvl\<close>, and the library's \<^verbatim>\<open>std::sort\<close>) are parameters of
  the model: every theorem holds for whatever they compute, or says what it assumes of
  them. \<^verbatim>\<open>std::sort\<close> takes the comparator that the code passes to it; its contract
  (\<open>std_sort_contract\<close> below) is that the result is a rearrangement of the input in which
  no element is followed by one that the comparator puts before it. The order of elements
  that the comparator does not separate is unspecified.
\<close>

record collaborators =
  xor_negate :: "xor \<Rightarrow> xor"
  num_diff_false_levels_below :: "solver \<Rightarrow> literal list \<Rightarrow> u32 \<Rightarrow> u32 option"
  num_diff_levels :: "solver \<Rightarrow> literal list \<Rightarrow> u32"
  get_max_lvl :: "solver \<Rightarrow> literal \<Rightarrow> justification \<Rightarrow> nat"
  std_sort :: "(wliteral \<Rightarrow> wliteral \<Rightarrow> bool) \<Rightarrow> wliteral list \<Rightarrow> wliteral list"


section \<open>Cardinality propagation\<close>

text \<open>
  \<^verbatim>\<open>clear_watch(card&)\<close>: stop watching the first \<open>min(k + 1, size)\<close> literals; \<open>k + 1\<close>
  is computed in unsigned arithmetic.
\<close>

definition clear_watch_card :: "card \<Rightarrow> ba_solver \<Rightarrow> ba_solver" where
  "clear_watch_card c st =
     (let sz = min (unat (m_k c + 1)) (length (m_lits c))
      in unwatch_all (take sz (m_lits c)) (m_id c) st)"

text \<open>
  The loop of \<^verbatim>\<open>init_watch(card&)\<close> that moves the non-false literals to the head; it
  returns the number \<open>j\<close> of non-false literals and the reordered body.
\<close>

function card_partition :: "solver \<Rightarrow> nat \<Rightarrow> nat \<Rightarrow> literal list \<Rightarrow> nat \<times> literal list" where
  "card_partition c i j ls =
     (if i < length ls then
        (if lit_value c (ls ! i) \<noteq> l_false
         then card_partition c (i + 1) (j + 1) (if j \<noteq> i then swap_at ls i j else ls)
         else card_partition c (i + 1) j ls)
      else (j, ls))"
  by pat_completeness auto
termination
  by (relation "measure (\<lambda>(c, i, j, ls). length ls - i)") (auto simp: swap_at_def)

declare card_partition.simps [simp del]

text \<open>
  The loop of the conflict branch: among positions \<open>[bound, sz)\<close> pick a literal of
  maximal level and keep it at position \<open>j\<close>.
\<close>

function card_max_level :: "solver \<Rightarrow> nat \<Rightarrow> nat \<Rightarrow> literal \<Rightarrow> literal list \<Rightarrow> literal \<times> literal list" where
  "card_max_level c i j alit ls =
     (if i < length ls then
        (if lvl c alit < lvl c (ls ! i)
         then (let ls' = swap_at ls i j in card_max_level c (i + 1) j (ls' ! j) ls')
         else card_max_level c (i + 1) j alit ls)
      else (alit, ls))"
  by pat_completeness auto
termination
  by (relation "measure (\<lambda>(c, i, j, alit, ls). length ls - i)") (auto simp: swap_at_def)

declare card_max_level.simps [simp del]

text \<open>
  \<^verbatim>\<open>init_watch(card&, bool)\<close>. The result is the returned flag together with the updated
  constraint and solver. Reading the body beyond its size (possible only when \<open>k\<close>
  exceeds the size) is reported as \<open>out_of_bounds\<close>.
\<close>

definition init_watch_card :: "card \<Rightarrow> bool \<Rightarrow> ba_solver \<Rightarrow> error + (bool \<times> card \<times> ba_solver)" where
  "init_watch_card c0 is_true st0 =
     (let st1 = clear_watch_card c0 st0;
          c = (if m_lit c0 \<noteq> null_literal \<and> sign (m_lit c0) = is_true then card_negate c0 else c0);
          sz = length (m_lits c);
          bound = unat (m_k c)
      in if bound = sz then Inr (False, c, assign_all False (m_id c) (m_lits c) st1)
         else case card_partition (s st1) 0 0 (m_lits c) of (j, ls) \<Rightarrow>
           if j < bound then
             (if j < sz then
                (case card_max_level (s st1) bound j (ls ! j) ls of (alit, ls') \<Rightarrow>
                   Inr (False, c\<lparr> m_lits := ls' \<rparr>, set_conflict False (m_id c) alit st1))
              else Inl out_of_bounds)
           else if j = bound then
             Inr (False, c\<lparr> m_lits := ls \<rparr>, assign_all False (m_id c) (take bound ls) st1)
           else
             Inr (True, c\<lparr> m_lits := ls \<rparr>, watch_all (take (bound + 1) ls) (m_id c) st1))"

text \<open>
  \<^verbatim>\<open>add_assign(card&, literal)\<close>: the literal \<open>alit\<close> has become false. The glue update of a
  learned constraint uses the core's \<^verbatim>\<open>num_diff_false_levels_below\<close> (\<open>None\<close> when it
  returns false).
\<close>

function card_find_index :: "literal list \<Rightarrow> literal \<Rightarrow> nat \<Rightarrow> nat \<Rightarrow> error + nat" where
  "card_find_index ls alit bound index =
     (if index \<le> bound then
        (if index < length ls then
           (if ls ! index = alit then Inr index else card_find_index ls alit bound (index + 1))
         else Inl out_of_bounds)
      else Inr index)"
  by pat_completeness auto
termination
  by (relation "measure (\<lambda>(ls, alit, bound, index). bound + 1 - index)") auto

declare card_find_index.simps [simp del]

function card_find_swap :: "solver \<Rightarrow> literal list \<Rightarrow> nat \<Rightarrow> nat option" where
  "card_find_swap c ls i =
     (if i < length ls then
        (if lit_value c (ls ! i) \<noteq> l_false then Some i else card_find_swap c ls (i + 1))
      else None)"
  by pat_completeness auto
termination
  by (relation "measure (\<lambda>(c, ls, i). length ls - i)") auto

declare card_find_swap.simps [simp del]

definition add_assign_card ::
  "collaborators \<Rightarrow> card \<Rightarrow> literal \<Rightarrow> ba_solver \<Rightarrow> error + (lbool \<times> card \<times> ba_solver)" where
  "add_assign_card E c alit st =
     (let sz = length (m_lits c);
          bound = unat (m_k c)
      in if bound = sz then Inr (l_false, c, set_conflict False (m_id c) alit st)
         else case card_find_index (m_lits c) alit bound 0 of
           Inl e \<Rightarrow> Inl e
         | Inr index \<Rightarrow>
           if index = bound + 1 then Inr (l_undef, c, st)
           else case card_find_swap (s st) (m_lits c) (bound + 1) of
             Some i \<Rightarrow>
               Inr (l_undef, c\<lparr> m_lits := swap_at (m_lits c) index i \<rparr>,
                    watch_literal (m_lits c ! i) (m_id c) st)
           | None \<Rightarrow>
               if bound \<noteq> index \<and> lit_value (s st) (m_lits c ! bound) = l_false
               then Inr (l_false, c, set_conflict False (m_id c) alit st)
               else
                 (let ls = (if index \<noteq> bound then swap_at (m_lits c) index bound else m_lits c);
                      st1 = assign_all False (m_id c) (take bound ls) st;
                      c1 = c\<lparr> m_lits := ls \<rparr>;
                      c2 = (if m_learned c1 \<and> 2 < m_glue c1
                            then (case num_diff_false_levels_below E (s st1) (m_lits c1) (m_glue c1 - 1) of Some glue \<Rightarrow> c1\<lparr> m_glue := glue \<rparr> | None \<Rightarrow> c1)
                            else c1)
                  in Inr (if inconsistent st1 then l_false else l_true, c2, st1)))"

section \<open>Pseudo-Boolean propagation\<close>

definition pb_set_wlits :: "wliteral list \<Rightarrow> pb \<Rightarrow> pb" where
  "pb_set_wlits wls p = p\<lparr> m_wlits := wls \<rparr>"

text \<open>\<^verbatim>\<open>clear_watch(pb&)\<close>: stop watching the watched prefix and reset \<open>num_watch\<close>.\<close>

definition clear_watch_pb :: "pb \<Rightarrow> ba_solver \<Rightarrow> error + (pb \<times> ba_solver)" where
  "clear_watch_pb p st =
     (if m_num_watch p \<le> length (m_wlits p)
      then Inr (p\<lparr> m_num_watch := 0 \<rparr>,
                unwatch_all (map snd (take (m_num_watch p) (m_wlits p))) (m_id p) st)
      else Inl out_of_bounds)"

text \<open>
  The first loop of \<^verbatim>\<open>init_watch(pb&)\<close>: move the non-false terms to the head and grow
  the watched prefix while \<open>slack \<le> bound\<close>. The state of the loop is
  \<open>(slack, slack1, num_watch, j)\<close> and the body.
\<close>

function pb_partition ::
  "solver \<Rightarrow> u32 \<Rightarrow> nat \<Rightarrow> u32 \<times> u32 \<times> nat \<times> nat \<Rightarrow> wliteral list \<Rightarrow> (u32 \<times> u32 \<times> nat \<times> nat) \<times> wliteral list" where
  "pb_partition c bound i acc wls =
     (if i < length wls then
        (case acc of (slack, slack1, num_watch, j) \<Rightarrow>
           if lit_value c (snd (wls ! i)) \<noteq> l_false then
             (let wls' = (if j \<noteq> i then swap_at wls i j else wls)
              in if slack \<le> bound
                 then pb_partition c bound (i + 1) (slack + fst (wls' ! j), slack1, num_watch + 1, j + 1) wls'
                 else pb_partition c bound (i + 1) (slack, slack1 + fst (wls' ! j), num_watch, j + 1) wls')
           else pb_partition c bound (i + 1) acc wls)
      else (acc, wls))"
  by pat_completeness auto
termination
  by (relation "measure (\<lambda>(c, bound, i, acc, wls). length wls - i)") (auto simp: swap_at_def)

declare pb_partition.simps [simp del]

function pb_max_level :: "solver \<Rightarrow> wliteral list \<Rightarrow> nat \<Rightarrow> literal \<Rightarrow> literal" where
  "pb_max_level c wls i lit =
     (if i < length wls then
        pb_max_level c wls (i + 1) (if lvl c lit < lvl c (snd (wls ! i)) then snd (wls ! i) else lit)
      else lit)"
  by pat_completeness auto
termination
  by (relation "measure (\<lambda>(c, wls, i, lit). length wls - i)") auto

declare pb_max_level.simps [simp del]

text \<open>
  \<^verbatim>\<open>init_watch(pb&, bool)\<close>. In the conflict branch the code reads \<open>p[j]\<close>, which lies
  beyond the body when no term is false: that read is \<open>out_of_bounds\<close>.
\<close>

definition init_watch_pb :: "pb \<Rightarrow> bool \<Rightarrow> ba_solver \<Rightarrow> error + (bool \<times> pb \<times> ba_solver)" where
  "init_watch_pb p0 is_true st0 =
     (case clear_watch_pb p0 st0 of
        Inl e \<Rightarrow> Inl e
      | Inr (p1, st1) \<Rightarrow>
        (let p = (if m_lit p1 \<noteq> null_literal \<and> sign (m_lit p1) = is_true then pb_negate p1 else p1);
             sz = length (m_wlits p);
             bound = m_k p
         in case pb_partition (s st1) bound 0 (0, 0, 0, 0) (m_wlits p) of
           ((slack, slack1, num_watch, j), wls) \<Rightarrow>
             if slack < bound then
               (if j < sz then
                  Inr (False, p\<lparr> m_wlits := wls \<rparr>,
                       set_conflict False (m_id p) (pb_max_level (s st1) wls (j + 1) (snd (wls ! j))) st1)
                else Inl out_of_bounds)
             else
               (let st2 = watch_all (map snd (take num_watch wls)) (m_id p) st1;
                    p2 = p\<lparr> m_wlits := wls, m_slack := slack, m_num_watch := num_watch \<rparr>;
                    st3 = (if slack + slack1 = bound
                           then assign_all False (m_id p) (map snd (take j wls)) st2 else st2)
                in Inr (True, p2, st3))))"

text \<open>
  \<^verbatim>\<open>add_index\<close>: remember an unassigned watched position and the largest weight seen on
  one.
\<close>

definition add_index :: "wliteral list \<Rightarrow> nat \<Rightarrow> literal \<Rightarrow> ba_solver \<Rightarrow> ba_solver" where
  "add_index wls index lit st =
     (if lit_value (s st) lit = l_undef then
        (let st1 = st\<lparr> m_pb_undef := m_pb_undef st @ [index] \<rparr>
         in if m_a_max st1 < fst (wls ! index) then st1\<lparr> m_a_max := fst (wls ! index) \<rparr> else st1)
      else st)"

function pb_find_index ::
  "wliteral list \<Rightarrow> literal \<Rightarrow> nat \<Rightarrow> nat \<Rightarrow> ba_solver \<Rightarrow> error + (nat \<times> ba_solver)" where
  "pb_find_index wls alit num_watch index st =
     (if index < num_watch then
        (if index < length wls then
           (if snd (wls ! index) = alit then Inr (index, st)
            else pb_find_index wls alit num_watch (index + 1) (add_index wls index (snd (wls ! index)) st))
         else Inl out_of_bounds)
      else Inr (index, st))"
  by pat_completeness auto
termination
  by (relation "measure (\<lambda>(wls, alit, num_watch, index, st). num_watch - index)") auto

declare pb_find_index.simps [simp del]

function pb_scan_undef :: "wliteral list \<Rightarrow> nat \<Rightarrow> nat \<Rightarrow> ba_solver \<Rightarrow> error + ba_solver" where
  "pb_scan_undef wls num_watch index1 st =
     (if m_a_max st = 0 \<and> index1 < num_watch then
        (if index1 < length wls
         then pb_scan_undef wls num_watch (index1 + 1) (add_index wls index1 (snd (wls ! index1)) st)
         else Inl out_of_bounds)
      else Inr st)"
  by pat_completeness auto
termination
  by (relation "measure (\<lambda>(wls, num_watch, index1, st). num_watch - index1)") auto

declare pb_scan_undef.simps [simp del]

text \<open>
  The loop that pulls non-false terms of the unwatched tail into the watched prefix
  while \<open>slack < bound + a_max\<close> (unsigned arithmetic). Its state is
  \<open>(slack, num_watch)\<close>, the body and the solver.
\<close>

function pb_pull ::
  "nat \<Rightarrow> u32 \<Rightarrow> nat \<Rightarrow> u32 \<times> nat \<Rightarrow> wliteral list \<Rightarrow> ba_solver \<Rightarrow> (u32 \<times> nat) \<times> wliteral list \<times> ba_solver" where
  "pb_pull idx bound j acc wls st =
     (case acc of (slack, num_watch) \<Rightarrow>
        if j < length wls \<and> slack < bound + m_a_max st then
          (let lit = snd (wls ! j)
           in if lit_value (s st) lit \<noteq> l_false then
                (let slack' = slack + fst (wls ! j);
                     st1 = watch_literal lit idx st;
                     wls' = swap_at wls num_watch j;
                     st2 = add_index wls' num_watch lit st1
                 in pb_pull idx bound (j + 1) (slack', num_watch + 1) wls' st2)
              else pb_pull idx bound (j + 1) acc wls st)
        else (acc, wls, st))"
  by pat_completeness auto
termination
  by (relation "measure (\<lambda>(idx, bound, j, acc, wls, st). length wls - j)") (auto simp: swap_at_def)

declare pb_pull.simps [simp del]

fun pb_assign_undef ::
  "nat \<Rightarrow> wliteral list \<Rightarrow> u32 \<Rightarrow> u32 \<Rightarrow> nat \<Rightarrow> nat \<Rightarrow> nat list \<Rightarrow> ba_solver \<Rightarrow> error + ba_solver" where
  "pb_assign_undef idx wls slack bound num_watch index [] st = Inr st"
| "pb_assign_undef idx wls slack bound num_watch index (i # is) st =
     (let index1 = (if i = num_watch then index else i)
      in if index1 < length wls then
           pb_assign_undef idx wls slack bound num_watch index is
             (if slack < bound + fst (wls ! index1) then assign False idx (snd (wls ! index1)) st else st)
         else Inl out_of_bounds)"

text \<open>
  \<^verbatim>\<open>add_assign(pb&, literal)\<close>. When \<open>alit\<close> is not among the watched terms the code calls
  \<^verbatim>\<open>exit(0)\<close>.
\<close>

definition add_assign_pb :: "pb \<Rightarrow> literal \<Rightarrow> ba_solver \<Rightarrow> error + (lbool \<times> pb \<times> ba_solver)" where
  "add_assign_pb p alit st0 =
     (let sz = length (m_wlits p);
          bound = m_k p;
          num_watch = m_num_watch p;
          slack = m_slack p;
          st1 = st0\<lparr> m_a_max := 0, m_pb_undef := [] \<rparr>
      in case pb_find_index (m_wlits p) alit num_watch 0 st1 of
        Inl e \<Rightarrow> Inl e
      | Inr (index, st2) \<Rightarrow>
        if index = num_watch \<or> num_watch = 0 then Inl exit_called
        else case pb_scan_undef (m_wlits p) num_watch (index + 1) st2 of
          Inl e \<Rightarrow> Inl e
        | Inr st3 \<Rightarrow>
          (let val = fst (m_wlits p ! index);
               slack1 = slack - val
           in case pb_pull (m_id p) bound num_watch (slack1, num_watch) (m_wlits p) st3 of
             ((slack2, num_watch2), wls, st4) \<Rightarrow>
               if slack2 < bound then
                 Inr (l_false,
                      p\<lparr> m_wlits := wls, m_slack := slack2 + val, m_num_watch := num_watch2 \<rparr>,
                      set_conflict False (m_id p) alit st4)
               else
                 (let num_watch3 = num_watch2 - 1;
                      wls3 = swap_at wls num_watch3 index;
                      p3 = p\<lparr> m_wlits := wls3, m_slack := slack2, m_num_watch := num_watch3 \<rparr>
                  in if slack2 < bound + m_a_max st4 then
                       (case pb_assign_undef (m_id p) wls3 slack2 bound num_watch3 index (m_pb_undef st4) st4 of
                          Inl e \<Rightarrow> Inl e
                        | Inr st5 \<Rightarrow> Inr (l_undef, p3, st5))
                     else Inr (l_undef, p3, st4))))"

section \<open>Xor propagation\<close>

function parity_loop :: "solver \<Rightarrow> literal list \<Rightarrow> nat \<Rightarrow> bool \<Rightarrow> bool" where
  "parity_loop c ls i is_odd =
     (if i < length ls
      then parity_loop c ls (i + 1) (if lit_value c (ls ! i) = l_true then \<not> is_odd else is_odd)
      else is_odd)"
  by pat_completeness auto
termination
  by (relation "measure (\<lambda>(c, ls, i, is_odd). length ls - i)") auto

declare parity_loop.simps [simp del]

definition parity :: "solver \<Rightarrow> literal list \<Rightarrow> nat \<Rightarrow> bool" where
  "parity c ls offset = parity_loop c ls offset False"

definition clear_watch_xor :: "xor \<Rightarrow> ba_solver \<Rightarrow> error + ba_solver" where
  "clear_watch_xor x st =
     (case m_xlits x of
        l0 # l1 # _ \<Rightarrow> Inr (unwatch_all [l0, l1, neg l0, neg l1] (m_id x) st)
      | _ \<Rightarrow> Inl out_of_bounds)"

function xor_partition :: "solver \<Rightarrow> nat \<Rightarrow> nat \<Rightarrow> literal list \<Rightarrow> nat \<times> literal list" where
  "xor_partition c i j ls =
     (if i < length ls \<and> j < 2 then
        (if lit_value c (ls ! i) = l_undef
         then xor_partition c (i + 1) (j + 1) (swap_at ls i j)
         else xor_partition c (i + 1) j ls)
      else (j, ls))"
  by pat_completeness auto
termination
  by (relation "measure (\<lambda>(c, i, j, ls). length ls - i)") (auto simp: swap_at_def)

declare xor_partition.simps [simp del]

function xor_max_level :: "solver \<Rightarrow> literal list \<Rightarrow> nat \<Rightarrow> nat \<Rightarrow> nat \<Rightarrow> nat" where
  "xor_max_level c ls i j l =
     (if i < length ls then
        (if l < lvl c (ls ! i) then xor_max_level c ls (i + 1) i (lvl c (ls ! i))
         else xor_max_level c ls (i + 1) j l)
      else j)"
  by pat_completeness auto
termination
  by (relation "measure (\<lambda>(c, ls, i, j, l). length ls - i)") auto

declare xor_max_level.simps [simp del]

definition init_watch_xor ::
  "collaborators \<Rightarrow> xor \<Rightarrow> bool \<Rightarrow> ba_solver \<Rightarrow> error + (bool \<times> xor \<times> ba_solver)" where
  "init_watch_xor E x0 is_true st0 =
     (case clear_watch_xor x0 st0 of
        Inl e \<Rightarrow> Inl e
      | Inr st1 \<Rightarrow>
        (let x = (if m_lit x0 \<noteq> null_literal \<and> sign (m_lit x0) = is_true then xor_negate E x0 else x0)
         in case xor_partition (s st1) 0 0 (m_xlits x) of (j, ls) \<Rightarrow>
           (let x1 = x\<lparr> m_xlits := ls \<rparr>
            in if j = 0 then
                 (if \<not> parity (s st1) ls 0 then
                    (if ls = [] then Inl out_of_bounds
                     else (let j' = xor_max_level (s st1) ls 1 1 (lvl (s st1) (ls ! 0))
                           in if j' < length ls
                              then Inr (False, x1, set_conflict True (m_id x) (ls ! j') st1)
                              else Inl out_of_bounds))
                  else Inr (False, x1, st1))
               else if j = 1 then
                 (if ls = [] then Inl out_of_bounds
                  else Inr (False, x1,
                            assign True (m_id x) (if parity (s st1) ls 1 then neg (ls ! 0) else ls ! 0) st1))
               else
                 (case ls of
                    l0 # l1 # _ \<Rightarrow> Inr (True, x1, watch_all [l0, l1, neg l0, neg l1] (m_id x) st1)
                  | _ \<Rightarrow> Inl out_of_bounds))))"

function xor_find_index :: "literal list \<Rightarrow> literal \<Rightarrow> nat \<Rightarrow> error + nat" where
  "xor_find_index ls alit index =
     (if index \<le> 2 then
        (if index < length ls then
           (if var (ls ! index) = var alit then Inr index else xor_find_index ls alit (index + 1))
         else Inl out_of_bounds)
      else Inr index)"
  by pat_completeness auto
termination
  by (relation "measure (\<lambda>(ls, alit, index). 3 - index)") auto

declare xor_find_index.simps [simp del]

function xor_find_swap :: "solver \<Rightarrow> literal list \<Rightarrow> nat \<Rightarrow> nat option" where
  "xor_find_swap c ls i =
     (if i < length ls then
        (if lit_value c (ls ! i) = l_undef then Some i else xor_find_swap c ls (i + 1))
      else None)"
  by pat_completeness auto
termination
  by (relation "measure (\<lambda>(c, ls, i). length ls - i)") auto

declare xor_find_swap.simps [simp del]

definition add_assign_xor :: "xor \<Rightarrow> literal \<Rightarrow> ba_solver \<Rightarrow> error + (lbool \<times> xor \<times> ba_solver)" where
  "add_assign_xor x alit st =
     (case xor_find_index (m_xlits x) alit 0 of
        Inl e \<Rightarrow> Inl e
      | Inr index \<Rightarrow>
        if index = 2 then Inr (l_undef, x, st)
        else case xor_find_swap (s st) (m_xlits x) 2 of
          Some i \<Rightarrow>
            (if index < length (m_xlits x)
             then Inr (l_undef, x\<lparr> m_xlits := swap_at (m_xlits x) index i \<rparr>,
                       watch_literal (m_xlits x ! i) (m_id x) st)
             else Inl out_of_bounds)
        | None \<Rightarrow>
            (if length (m_xlits x) < 2 then Inl out_of_bounds
             else
               (let ls = (if index = 0 then swap_at (m_xlits x) 0 1 else m_xlits x);
                    x1 = x\<lparr> m_xlits := ls \<rparr>;
                    st1 = (if lit_value (s st) (ls ! 0) = l_undef
                           then assign True (m_id x) (if parity (s st) ls 1 then neg (ls ! 0) else ls ! 0) st
                           else if \<not> parity (s st) ls 0
                           then set_conflict True (m_id x) (neg (ls ! 1)) st
                           else st)
                in Inr (if inconsistent st1 then l_false else l_true, x1, st1))))"

section \<open>Generic dispatch and \<^verbatim>\<open>propagate\<close>\<close>

definition lift_res :: "('c \<Rightarrow> constraint_obj) \<Rightarrow> error + ('r \<times> 'c \<times> ba_solver) \<Rightarrow> error + ('r \<times> constraint_obj \<times> ba_solver)" where
  "lift_res f r = (case r of Inl e \<Rightarrow> Inl e | Inr (b, c, st) \<Rightarrow> Inr (b, f c, st))"

definition obj_lit :: "constraint_obj \<Rightarrow> literal" where
  "obj_lit c = (case c of Card x \<Rightarrow> m_lit x | Pb x \<Rightarrow> m_lit x | Xor x \<Rightarrow> m_lit x)"

definition obj_id :: "constraint_obj \<Rightarrow> nat" where
  "obj_id c = (case c of Card x \<Rightarrow> m_id x | Pb x \<Rightarrow> m_id x | Xor x \<Rightarrow> m_id x)"

definition obj_learned :: "constraint_obj \<Rightarrow> bool" where
  "obj_learned c = (case c of Card x \<Rightarrow> m_learned x | Pb x \<Rightarrow> m_learned x | Xor x \<Rightarrow> m_learned x)"

text \<open>\<^verbatim>\<open>init_watch(constraint&, bool)\<close>: nothing when the solver is inconsistent.\<close>

definition init_watch ::
  "collaborators \<Rightarrow> constraint_obj \<Rightarrow> bool \<Rightarrow> ba_solver \<Rightarrow> error + (bool \<times> constraint_obj \<times> ba_solver)" where
  "init_watch E c is_true st =
     (if inconsistent st then Inr (False, c, st)
      else case c of
        Card x \<Rightarrow> lift_res Card (init_watch_card x is_true st)
      | Pb x \<Rightarrow> lift_res Pb (init_watch_pb x is_true st)
      | Xor x \<Rightarrow> lift_res Xor (init_watch_xor E x is_true st))"

definition add_assign ::
  "collaborators \<Rightarrow> constraint_obj \<Rightarrow> literal \<Rightarrow> ba_solver \<Rightarrow> error + (lbool \<times> constraint_obj \<times> ba_solver)" where
  "add_assign E c l st =
     (case c of
        Card x \<Rightarrow> lift_res Card (add_assign_card E x l st)
      | Pb x \<Rightarrow> lift_res Pb (add_assign_pb x l st)
      | Xor x \<Rightarrow> lift_res Xor (add_assign_xor x l st))"

definition store :: "constraint_obj \<Rightarrow> ba_solver \<Rightarrow> ba_solver" where
  "store c st = st\<lparr> m_cstore := (m_cstore st)(obj_id c := Some c) \<rparr>"

text \<open>
  \<^verbatim>\<open>propagate(literal, ext_constraint_idx)\<close>: the literal \<open>l\<close> has become true and the
  constraint of index \<open>idx\<close> watches it. The result \<open>True\<close> keeps the watch. An index that
  names no constraint is a dangling pointer (\<open>out_of_bounds\<close>).
\<close>

definition propagate :: "collaborators \<Rightarrow> literal \<Rightarrow> nat \<Rightarrow> ba_solver \<Rightarrow> error + (bool \<times> ba_solver)" where
  "propagate E l idx st =
     (case m_cstore st idx of
        None \<Rightarrow> Inl out_of_bounds
      | Some c \<Rightarrow>
        if obj_lit c \<noteq> null_literal \<and> var l = var (obj_lit c) then
          (case init_watch E c (\<not> sign l) st of
             Inl e \<Rightarrow> Inl e
           | Inr (b, c', st') \<Rightarrow> Inr (True, store c' st'))
        else if obj_lit c \<noteq> null_literal \<and> lit_value (s st) (obj_lit c) \<noteq> l_true then
          Inr (True, st)
        else
          (case add_assign E c (neg l) st of
             Inl e \<Rightarrow> Inl e
           | Inr (r, c', st') \<Rightarrow> Inr (l_undef \<noteq> r, store c' st')))"




section \<open>Creating constraints\<close>

definition at_base_lvl :: "solver \<Rightarrow> bool" where
  "at_base_lvl c = (m_scope_lvl c = 0)"

definition get_wlist_push :: "literal \<Rightarrow> nat \<Rightarrow> ba_solver \<Rightarrow> ba_solver" where
  "get_wlist_push lit idx st =
     st\<lparr> s := (s st)\<lparr> m_watches := (m_watches (s st))(lit := m_watches (s st) lit @ [idx]) \<rparr> \<rparr>"

text \<open>
  \<^verbatim>\<open>add_constraint\<close>: register the constraint as learned or as a problem constraint; a
  learned constraint above the base level waits on the reinit queue, an unreified one is
  watched at once, a reified one is put on both watch lists of its reifier.
\<close>

definition add_constraint :: "collaborators \<Rightarrow> constraint_obj \<Rightarrow> ba_solver \<Rightarrow> error + ba_solver" where
  "add_constraint E c st0 =
     (let st1 = (if obj_learned c then st0\<lparr> m_learned_v := m_learned_v st0 @ [obj_id c] \<rparr>
                 else st0\<lparr> m_constraints := m_constraints st0 @ [obj_id c] \<rparr>);
          lit = obj_lit c
      in if obj_learned c \<and> \<not> at_base_lvl (s st1) then
           Inr (store c (st1\<lparr> m_constraint_to_reinit := m_constraint_to_reinit st1 @ [obj_id c] \<rparr>))
         else if lit = null_literal then
           (case init_watch E c True st1 of
              Inl e \<Rightarrow> Inl e
            | Inr (b, c', st2) \<Rightarrow> Inr (store c' st2))
         else
           Inr (store c (get_wlist_push (neg lit) (obj_id c)
                  (get_wlist_push lit (obj_id c) (st1\<lparr> s := set_external (var lit) (s st1) \<rparr>)))))"

definition mk_card :: "nat \<Rightarrow> literal \<Rightarrow> literal list \<Rightarrow> u32 \<Rightarrow> card" where
  "mk_card i lit lits k =
     \<lparr> m_id = i, m_lit = lit, m_removed = False, m_learned = False, m_glue = 0, m_psm = 0,
       m_k = k, m_lits = lits \<rparr>"

text \<open>
  \<^verbatim>\<open>add_at_least\<close>: a clause for \<open>k = 1\<close> without reifier (the result is null), otherwise
  a new cardinality constraint; the result is its handle.
\<close>

definition add_at_least ::
  "collaborators \<Rightarrow> literal \<Rightarrow> literal list \<Rightarrow> u32 \<Rightarrow> bool \<Rightarrow> ba_solver \<Rightarrow> error + (nat option \<times> ba_solver)" where
  "add_at_least E lit lits k learned st =
     (if k = 1 \<and> lit = null_literal then
        Inr (None, st\<lparr> s := mk_clause lits learned (s st) \<rparr>)
      else
        (let i = m_constraint_id st;
             st1 = st\<lparr> m_constraint_id := i + 1 \<rparr>;
             c = (mk_card i lit lits k)\<lparr> m_learned := learned \<rparr>
         in case add_constraint E (Card c) st1 of
              Inl e \<Rightarrow> Inl e
            | Inr st2 \<Rightarrow> Inr (Some i, st2)))"

text \<open>
  \<^verbatim>\<open>pb::update_max_sum\<close>: clip every coefficient to \<open>k\<close> and sum the clipped
  coefficients; when the unsigned sum wraps around, the code throws
  \<^verbatim>\<open>default_exception("addition of pb coefficients overflows")\<close>.
\<close>

fun update_max_sum :: "u32 \<Rightarrow> wliteral list \<Rightarrow> u32 \<Rightarrow> error + (wliteral list \<times> u32)" where
  "update_max_sum k [] max_sum = Inr ([], max_sum)"
| "update_max_sum k ((a, l) # wls) max_sum =
     (let a' = min k a
      in if max_sum + a' < max_sum then Inl default_exception
         else case update_max_sum k wls (max_sum + a') of
                Inl e \<Rightarrow> Inl e
              | Inr (wls', m) \<Rightarrow> Inr ((a', l) # wls', m))"

definition mk_pb :: "nat \<Rightarrow> literal \<Rightarrow> wliteral list \<Rightarrow> u32 \<Rightarrow> error + pb" where
  "mk_pb i lit wlits k =
     (case update_max_sum k wlits 0 of
        Inl e \<Rightarrow> Inl e
      | Inr (wls, m) \<Rightarrow>
          Inr \<lparr> m_id = i, m_lit = lit, m_removed = False, m_learned = False, m_glue = 0, m_psm = 0,
                m_k = k, m_wlits = wls, m_slack = 0, m_num_watch = 0, m_max_sum = m \<rparr>)"

text \<open>
  \<^verbatim>\<open>add_pb_ge\<close>: null for \<open>k = 0\<close> without reifier; a cardinality constraint when all
  weights are 1 or \<open>k = 1\<close>; otherwise a new pb constraint, whose constructor may throw.
\<close>

definition add_pb_ge ::
  "collaborators \<Rightarrow> literal \<Rightarrow> wliteral list \<Rightarrow> u32 \<Rightarrow> bool \<Rightarrow> ba_solver \<Rightarrow> error + (nat option \<times> ba_solver)" where
  "add_pb_ge E lit wlits k learned st =
     (let units = list_all (\<lambda>wl. fst wl = 1) wlits
      in if k = 0 \<and> lit = null_literal then Inr (None, st)
         else if units \<or> k = 1 then add_at_least E lit (map snd wlits) k learned st
         else
           (let i = m_constraint_id st;
                st1 = st\<lparr> m_constraint_id := i + 1 \<rparr>
            in case mk_pb i lit wlits k of
                 Inl e \<Rightarrow> Inl e
               | Inr p \<Rightarrow>
                   (case add_constraint E (Pb (p\<lparr> m_learned := learned \<rparr>)) st1 of
                      Inl e \<Rightarrow> Inl e
                    | Inr st2 \<Rightarrow> Inr (Some i, st2))))"

section \<open>Conflict resolution: the coefficient scratchpad\<close>

definition get_coeff :: "ba_solver \<Rightarrow> bool_var \<Rightarrow> int" where
  "get_coeff st v = m_coeffs st v"

text \<open>
  \<^verbatim>\<open>get_abs_coeff\<close>: the absolute value as an unsigned number; a coefficient outside
  \<open>[INT_MIN + 1, UINT_MAX]\<close> latches the overflow flag and yields \<open>UINT_MAX\<close>.
\<close>

definition get_abs_coeff :: "bool_var \<Rightarrow> ba_solver \<Rightarrow> u32 \<times> ba_solver" where
  "get_abs_coeff v st =
     (let c = get_coeff st v
      in if c < INT_MIN + 1 \<or> c > UINT_MAX then (word_of_int UINT_MAX, st\<lparr> m_overflow := True \<rparr>)
         else (word_of_int \<bar>c\<bar>, st))"

definition get_int_coeff :: "bool_var \<Rightarrow> ba_solver \<Rightarrow> int \<times> ba_solver" where
  "get_int_coeff v st =
     (let c = m_coeffs st v
      in if c < INT_MIN \<or> c > INT_MAX then (0, st\<lparr> m_overflow := True \<rparr>)
         else (c, st))"

text \<open>
  \<^verbatim>\<open>inc_bound(int64)\<close>: an increment outside the \<^verbatim>\<open>int\<close> range, a negative new bound or
  one above \<open>UINT_MAX\<close> latches the overflow flag and leaves the bound as it is.
\<close>

definition inc_bound :: "int \<Rightarrow> ba_solver \<Rightarrow> ba_solver" where
  "inc_bound i st =
     (if i < INT_MIN \<or> i > INT_MAX then st\<lparr> m_overflow := True \<rparr>
      else
        (let new_bound = uint (m_bound st) + i
         in if new_bound < 0 then st\<lparr> m_overflow := True \<rparr>
            else if new_bound > UINT_MAX then st\<lparr> m_overflow := True \<rparr>
            else st\<lparr> m_bound := word_of_int new_bound \<rparr>))"

text \<open>
  \<^verbatim>\<open>inc_coeff(literal, unsigned)\<close>. The new coefficient is stored before the range check;
  on overflow the function returns at once. Both clipping branches store \<^verbatim>\<open>m_bound\<close>
  itself, as the source does.
\<close>

definition inc_coeff :: "literal \<Rightarrow> u32 \<Rightarrow> ba_solver \<Rightarrow> ba_solver" where
  "inc_coeff l offset st0 =
     (let v = var l;
          coeff0 = m_coeffs st0 v;
          st1 = (if coeff0 = 0 then st0\<lparr> m_active_vars := m_active_vars st0 @ [v] \<rparr> else st0);
          loffset = uint offset;
          inc = (if sign l then - loffset else loffset);
          coeff1 = inc + coeff0;
          st2 = st1\<lparr> m_coeffs := (m_coeffs st1)(v := coeff1) \<rparr>
      in if coeff1 > INT_MAX \<or> coeff1 < INT_MIN then st2\<lparr> m_overflow := True \<rparr>
         else
           (let st3 = (if coeff0 > 0 \<and> inc < 0 then inc_bound (max 0 coeff1 - coeff0) st2
                       else if coeff0 < 0 \<and> inc > 0 then inc_bound (coeff0 - min 0 coeff1) st2
                       else st2)
            in if coeff1 > uint (m_bound st3) then
                 st3\<lparr> m_coeffs := (m_coeffs st3)(v := uint (m_bound st3)) \<rparr>
               else if coeff1 < 0 \<and> - coeff1 > uint (m_bound st3) then
                 st3\<lparr> m_coeffs := (m_coeffs st3)(v := uint (m_bound st3)) \<rparr>
               else st3))"

text \<open>
  The sum \<^verbatim>\<open>coeff1 = inc + coeff0\<close> that \<^verbatim>\<open>inc_coeff\<close> computes in signed 64-bit
  arithmetic, before any clipping.
\<close>

definition unclipped :: "literal \<Rightarrow> u32 \<Rightarrow> ba_solver \<Rightarrow> int" where
  "unclipped l offset st = (if sign l then - uint offset else uint offset) + m_coeffs st (var l)"

definition reset_coeffs :: "ba_solver \<Rightarrow> ba_solver" where
  "reset_coeffs st =
     st\<lparr> m_coeffs := (\<lambda>v. if v \<in> set (m_active_vars st) then 0 else m_coeffs st v),
         m_active_vars := [] \<rparr>"

text \<open>
  \<^verbatim>\<open>normalize_active_coeffs\<close>: keep the first occurrence of every active variable whose
  coefficient is not zero. The set \<open>seen\<close> is \<^verbatim>\<open>m_active_var_set\<close>.
\<close>

fun normalize_loop :: "(bool_var \<Rightarrow> int) \<Rightarrow> bool_var list \<Rightarrow> bool_var list \<Rightarrow> bool_var list" where
  "normalize_loop cf seen [] = []"
| "normalize_loop cf seen (v # vs) =
     (if v \<notin> set seen \<and> cf v \<noteq> 0 then v # normalize_loop cf (v # seen) vs
      else normalize_loop cf seen vs)"

definition normalize_active_coeffs :: "ba_solver \<Rightarrow> ba_solver" where
  "normalize_active_coeffs st =
     st\<lparr> m_active_vars := normalize_loop (m_coeffs st) [] (m_active_vars st) \<rparr>"

section \<open>Conflict resolution: \<^verbatim>\<open>cut\<close>\<close>

text \<open>
  Modelled from the spec: \<^verbatim>\<open>u_gcd\<close> (of \<^verbatim>\<open>util\<close>, absent) is the greatest common divisor
  of two unsigned numbers.
\<close>

definition u_gcd :: "u32 \<Rightarrow> u32 \<Rightarrow> u32" where
  "u_gcd a b = of_nat (gcd (unat a) (unat b))"

text \<open>C++ division of signed integers truncates towards zero.\<close>

definition cdiv :: "int \<Rightarrow> int \<Rightarrow> int" where
  "cdiv a b = sgn a * sgn b * (\<bar>a\<bar> div \<bar>b\<bar>)"

text \<open>The first loop of \<^verbatim>\<open>cut\<close>: is there an active variable of coefficient \<open>\<plusminus>1\<close>?\<close>

fun cut_has_unit :: "bool_var list \<Rightarrow> ba_solver \<Rightarrow> bool \<times> ba_solver" where
  "cut_has_unit [] st = (False, st)"
| "cut_has_unit (v # vs) st =
     (case get_abs_coeff v st of
        (c, st1) \<Rightarrow> if 1 = c then (True, st1) else cut_has_unit vs st1)"

text \<open>
  The second loop: clip every coefficient above the bound to \<open>\<plusminus>bound\<close> and accumulate
  the gcd \<open>g\<close> of the (clipped) nonzero absolute coefficients; the loop stops as soon as
  \<open>g = 1\<close>.
\<close>

fun cut_gcd :: "bool_var list \<Rightarrow> u32 \<Rightarrow> ba_solver \<Rightarrow> u32 \<times> ba_solver" where
  "cut_gcd [] g st = (g, st)"
| "cut_gcd (v # vs) g st =
     (if g = 1 then (g, st)
      else case get_abs_coeff v st of
        (coeff, st1) \<Rightarrow>
          if coeff = 0 then cut_gcd vs g st1
          else
            (let st2 = (if m_bound st1 < coeff
                        then st1\<lparr> m_coeffs := (m_coeffs st1)
                                 (v := (if get_coeff st1 v > 0 then uint (m_bound st1)
                                        else - uint (m_bound st1))) \<rparr>
                        else st1);
                 coeff' = (if m_bound st1 < coeff then m_bound st1 else coeff)
             in cut_gcd vs (if g = 0 then coeff' else u_gcd g coeff') st2))"

definition divide_coeffs :: "u32 \<Rightarrow> bool_var list \<Rightarrow> (bool_var \<Rightarrow> int) \<Rightarrow> (bool_var \<Rightarrow> int)" where
  "divide_coeffs g vs cf = fold (\<lambda>v f. f(v := cdiv (f v) (sint g))) vs cf"

definition cut :: "ba_solver \<Rightarrow> ba_solver" where
  "cut st0 =
     (case cut_has_unit (m_active_vars st0) st0 of
        (True, st1) \<Rightarrow> st1
      | (False, st1) \<Rightarrow>
          (case cut_gcd (m_active_vars st1) 0 st1 of
             (g, st2) \<Rightarrow>
               if 2 \<le> g then
                 (let st3 = normalize_active_coeffs st2
                  in st3\<lparr> m_coeffs := divide_coeffs g (m_active_vars st3) (m_coeffs st3),
                           m_bound := (m_bound st3 + g - 1) div g,
                           m_stats := (m_stats st3)\<lparr> m_num_cut := m_num_cut (m_stats st3) + 1 \<rparr> \<rparr>)
               else st2))"

subsection \<open>The inequality that the scratchpad stands for\<close>

text \<open>
  The current inequality is \<open>\<Sum> |c\<^sub>v| \<cdot> \<ell>\<^sub>v \<ge> B\<close> over the active variables, where \<open>\<ell>\<^sub>v\<close> is
  the positive literal of \<open>v\<close> for a positive coefficient and the negative one for a
  negative coefficient (\<^verbatim>\<open>active2pb\<close> reads it off in the same way). A 0/1 model is an
  assignment \<open>x\<close> of the variables.
\<close>

definition term_of :: "(bool_var \<Rightarrow> int) \<Rightarrow> (bool_var \<Rightarrow> bool) \<Rightarrow> bool_var \<Rightarrow> int" where
  "term_of cf x v = (if (0 < cf v \<and> x v) \<or> (cf v < 0 \<and> \<not> x v) then \<bar>cf v\<bar> else 0)"

definition lhs :: "ba_solver \<Rightarrow> (bool_var \<Rightarrow> bool) \<Rightarrow> int" where
  "lhs st x = sum (term_of (m_coeffs st) x) (set (m_active_vars st))"

definition model_of :: "ba_solver \<Rightarrow> (bool_var \<Rightarrow> bool) \<Rightarrow> bool" where
  "model_of st x = (uint (m_bound st) \<le> lhs st x)"

text \<open>
  The coefficient as \<^verbatim>\<open>cut\<close> clips it, and the gcd of the clipped coefficients of the
  active variables.
\<close>

definition clip_coeff :: "u32 \<Rightarrow> int \<Rightarrow> int" where
  "clip_coeff b c = (if uint b < \<bar>c\<bar> then (if c > 0 then uint b else - uint b) else c)"

definition clipped_gcd :: "ba_solver \<Rightarrow> int" where
  "clipped_gcd st = Gcd ((\<lambda>v. clip_coeff (m_bound st) (m_coeffs st v)) ` set (m_active_vars st))"

text \<open>
  The transformation as the specification words it, for comparison: \<open>g\<close> is the gcd of
  the nonzero absolute coefficients themselves; for \<open>g \<ge> 2\<close> every coefficient is divided
  by \<open>g\<close> and the bound becomes \<open>\<lceil>B / g\<rceil>\<close>.
\<close>

definition spec_gcd :: "ba_solver \<Rightarrow> int" where
  "spec_gcd st = Gcd (m_coeffs st ` set (m_active_vars st))"

definition spec_cut_coeff :: "ba_solver \<Rightarrow> bool_var \<Rightarrow> int" where
  "spec_cut_coeff st v = (if 2 \<le> spec_gcd st then m_coeffs st v div spec_gcd st else m_coeffs st v)"

definition spec_cut_bound :: "ba_solver \<Rightarrow> int" where
  "spec_cut_bound st =
     (if 2 \<le> spec_gcd st then (uint (m_bound st) + spec_gcd st - 1) div spec_gcd st
      else uint (m_bound st))"

section \<open>Conflict resolution: antecedents\<close>

text \<open>
  \<^verbatim>\<open>process_antecedent\<close>: mark the variable of a literal of the conflict level (once) and
  add the literal to the inequality.
\<close>

definition process_antecedent :: "literal \<Rightarrow> u32 \<Rightarrow> ba_solver \<Rightarrow> ba_solver" where
  "process_antecedent l offset st =
     (let v = var l;
          level = m_level (s st) v;
          st1 = (if 0 < level \<and> \<not> is_marked (s st) v \<and> level = m_conflict_lvl st
                 then st\<lparr> s := mark v (s st), m_num_marks := m_num_marks st + 1 \<rparr>
                 else st)
      in inc_coeff l offset st1)"

fun process_antecedents :: "literal list \<Rightarrow> u32 \<Rightarrow> ba_solver \<Rightarrow> ba_solver" where
  "process_antecedents [] offset st = st"
| "process_antecedents (l # ls) offset st = process_antecedents ls offset (process_antecedent l offset st)"

fun inc_coeffs :: "literal list \<Rightarrow> u32 \<Rightarrow> ba_solver \<Rightarrow> ba_solver" where
  "inc_coeffs [] offset st = st"
| "inc_coeffs (l # ls) offset st = inc_coeffs ls offset (inc_coeff l offset st)"

text \<open>
  \<^verbatim>\<open>process_card\<close>: the literals from position \<open>k\<close> on are antecedents, the first \<open>k\<close>
  literals enter the inequality, and the negated reifier is an antecedent of weight
  \<open>offset \<cdot> k\<close> unless that product exceeds \<open>UINT_MAX\<close>. Reading the first \<open>k\<close> literals
  of a shorter body is \<open>out_of_bounds\<close>.
\<close>

definition process_card :: "card \<Rightarrow> u32 \<Rightarrow> ba_solver \<Rightarrow> error + ba_solver" where
  "process_card c offset st =
     (let k = unat (m_k c);
          st1 = process_antecedents (drop k (m_lits c)) offset st
      in if length (m_lits c) < k then Inl out_of_bounds
         else
           (let st2 = inc_coeffs (take k (m_lits c)) offset st1
            in if m_lit c \<noteq> null_literal then
                 (let offset1 = unat offset * k
                  in if int offset1 > UINT_MAX then Inr (st2\<lparr> m_overflow := True \<rparr>)
                     else Inr (process_antecedent (neg (m_lit c)) (of_nat offset1) st2))
               else Inr st2))"

text \<open>
  \<^verbatim>\<open>get_antecedents(literal, pb const&, literal_vector&)\<close>: literals of \<open>p\<close> that explain
  \<open>l\<close>. The sums are unsigned.
\<close>

fun pb_nonfalse_slack :: "solver \<Rightarrow> wliteral list \<Rightarrow> u32 \<Rightarrow> u32" where
  "pb_nonfalse_slack c [] slack = slack"
| "pb_nonfalse_slack c ((a, lit) # wls) slack =
     pb_nonfalse_slack c wls (if lit_value c lit \<noteq> l_false then slack + a else slack)"

fun pb_conflict_antecedents ::
  "solver \<Rightarrow> literal \<Rightarrow> u32 \<Rightarrow> wliteral list \<Rightarrow> u32 \<Rightarrow> literal list \<Rightarrow> literal list" where
  "pb_conflict_antecedents c l k [] slack r = r"
| "pb_conflict_antecedents c l k ((w, lit) # wls) slack r =
     (if lit \<noteq> l \<and> lit_value c lit = l_false then
        (if slack + w < k then pb_conflict_antecedents c l k wls (slack + w) r
         else pb_conflict_antecedents c l k wls slack (r @ [neg lit]))
      else pb_conflict_antecedents c l k wls slack r)"

fun pb_tail_antecedents :: "u32 \<Rightarrow> wliteral list \<Rightarrow> u32 \<Rightarrow> literal list \<Rightarrow> literal list" where
  "pb_tail_antecedents k [] slack r = r"
| "pb_tail_antecedents k ((w, lit) # wls) slack r =
     (if slack + w < k then pb_tail_antecedents k wls (slack + w) r
      else pb_tail_antecedents k wls slack (r @ [neg lit]))"

fun pb_find_lit :: "wliteral list \<Rightarrow> literal \<Rightarrow> nat \<Rightarrow> nat \<times> u32" where
  "pb_find_lit [] l j = (j, 0)"
| "pb_find_lit ((w, lit) # wls) l j = (if lit = l then (j, w) else pb_find_lit wls l (j + 1))"

definition get_antecedents_pb :: "solver \<Rightarrow> literal \<Rightarrow> pb \<Rightarrow> literal list \<Rightarrow> literal list" where
  "get_antecedents_pb c l p r0 =
     (let r = (if m_lit p \<noteq> null_literal then r0 @ [m_lit p] else r0);
          k = m_k p
      in if lit_value c l = l_false then
           pb_conflict_antecedents c l k (m_wlits p) (pb_nonfalse_slack c (m_wlits p) 0) r
         else
           (case pb_find_lit (m_wlits p) l 0 of
              (j0, coeff) \<Rightarrow>
                (let j1 = j0 + 1;
                     j2 = (if j1 < m_num_watch p then m_num_watch p else j1);
                     slack = m_slack p - coeff;
                     j3 = max (j2 + 1) (m_num_watch p)
                 in pb_tail_antecedents k (drop j3 (m_wlits p)) slack r)))"

subsection \<open>Parity resolution\<close>

text \<open>
  Trail positions are unsigned in the code; decrementing position 0 wraps around to
  \<open>UINT_MAX\<close>, which lies beyond every trail. In the model a position is \<open>Some i\<close>, or
  \<open>None\<close> after the wrap-around, and reading the trail there is \<open>out_of_bounds\<close>.
\<close>

definition dec_idx :: "nat option \<Rightarrow> nat option" where
  "dec_idx idx = (case idx of Some (Suc i) \<Rightarrow> Some i | _ \<Rightarrow> None)"

definition trail_at :: "solver \<Rightarrow> nat option \<Rightarrow> error + literal" where
  "trail_at c idx =
     (case idx of
        Some i \<Rightarrow> if i < length (m_trail c) then Inr (m_trail c ! i) else Inl out_of_bounds
      | None \<Rightarrow> Inl out_of_bounds)"

definition idx_measure :: "nat option \<Rightarrow> nat" where
  "idx_measure idx = (case idx of Some i \<Rightarrow> Suc i | None \<Rightarrow> 0)"

definition inc_parity :: "bool_var \<Rightarrow> ba_solver \<Rightarrow> ba_solver" where
  "inc_parity v st = st\<lparr> m_parity_marks := (m_parity_marks st)(v := m_parity_marks st v + 1) \<rparr>"

definition reset_parity :: "bool_var \<Rightarrow> ba_solver \<Rightarrow> ba_solver" where
  "reset_parity v st = st\<lparr> m_parity_marks := (m_parity_marks st)(v := 0) \<rparr>"

definition get_parity :: "ba_solver \<Rightarrow> bool_var \<Rightarrow> u32" where
  "get_parity st v = m_parity_marks st v"

text \<open>The loop over the body of an xor reason: count every literal but the first.\<close>

fun xor_count :: "literal list \<Rightarrow> u32 \<Rightarrow> ba_solver \<Rightarrow> u32 \<times> ba_solver" where
  "xor_count [] num_marks st = (num_marks, st)"
| "xor_count (x # xs) num_marks st =
     (let lit = (if lit_value (s st) x = l_true then x else neg x)
      in xor_count xs (num_marks + 1) (inc_parity (var lit) st))"

text \<open>
  The inner loop: walk down the trail to the next variable of odd parity. The result is
  the position, the literal found last, and the remaining number of marks.
\<close>

function xor_walk ::
  "nat option \<Rightarrow> literal \<Rightarrow> u32 \<Rightarrow> ba_solver \<Rightarrow> error + (nat option \<times> literal \<times> u32 \<times> ba_solver)" where
  "xor_walk index l num_marks st =
     (if 0 < num_marks then
        (case trail_at (s st) index of
           Inl e \<Rightarrow> Inl e
         | Inr l' \<Rightarrow>
             (let n = get_parity st (var l')
              in if 0 < n then
                   (if n mod 2 = 1 then Inr (index, l', num_marks, reset_parity (var l') st)
                    else xor_walk (dec_idx index) l' (num_marks - 1) (reset_parity (var l') st))
                 else xor_walk (dec_idx index) l' num_marks st))
      else Inr (index, l, num_marks, st))"
  by pat_completeness auto
termination
  by (relation "measure (\<lambda>(index, l, num_marks, st). idx_measure index)")
     (auto simp: trail_at_def dec_idx_def idx_measure_def split: option.splits nat.splits if_splits)

declare xor_walk.simps [simp del]

lemma xor_walk_position:
  "xor_walk index l num_marks st = Inr (index', l', num_marks', st') \<Longrightarrow>
   idx_measure index' \<le> idx_measure index \<and> (num_marks' \<noteq> 0 \<longrightarrow> 0 < idx_measure index')"
proof (induction index l num_marks st rule: xor_walk.induct)
  case (1 index l num_marks st)
  show ?case
  proof (cases "0 < num_marks")
    case False
    with "1.prems" show ?thesis
      by (simp add: xor_walk.simps [of index l num_marks st] word_gt_0)
  next
    case nm: True
    show ?thesis
    proof (cases "trail_at (s st) index")
      case (Inl e)
      with "1.prems" nm show ?thesis by (simp add: xor_walk.simps [of index l num_marks st])
    next
      case (Inr x)
      then have pos: "0 < idx_measure index" "idx_measure (dec_idx index) \<le> idx_measure index"
        by (auto simp: trail_at_def idx_measure_def dec_idx_def split: option.splits nat.splits if_splits)
      show ?thesis
      proof (cases "0 < get_parity st (var x)")
        case False
        then have "xor_walk (dec_idx index) x num_marks st = Inr (index', l', num_marks', st')"
          using "1.prems" nm Inr by (simp add: xor_walk.simps [of index l num_marks st])
        from "1.IH"(2) [OF nm Inr refl False this] pos show ?thesis by auto
      next
        case p: True
        show ?thesis
        proof (cases "get_parity st (var x) mod 2 = 1")
          case True
          then show ?thesis
            using "1.prems" nm Inr p pos by (auto simp: xor_walk.simps [of index l num_marks st])
        next
          case False
          then have "xor_walk (dec_idx index) x (num_marks - 1) (reset_parity (var x) st) =
                       Inr (index', l', num_marks', st')"
            using "1.prems" nm Inr p by (simp add: xor_walk.simps [of index l num_marks st])
          from "1.IH"(1) [OF nm Inr refl p False this] pos show ?thesis by auto
        qed
      qed
    qed
  qed
qed

text \<open>
  One reason of the parity resolution: an xor constraint contributes its reifier (when
  assigned above level 0) and counts its other literals; any other reason contributes the
  literal itself.
\<close>

definition xor_reason ::
  "literal \<Rightarrow> justification \<Rightarrow> u32 \<Rightarrow> literal list \<Rightarrow> ba_solver \<Rightarrow> error + (u32 \<times> literal list \<times> ba_solver)" where
  "xor_reason l js num_marks r st =
     (case js of
        J_EXT i \<Rightarrow>
          (case m_cstore st i of
             None \<Rightarrow> Inl out_of_bounds
           | Some (Xor x) \<Rightarrow>
               (let r1 = (if m_lit x \<noteq> null_literal \<and> 0 < lvl (s st) (m_lit x) then r @ [m_lit x] else r)
                in if length (m_xlits x) < 2 then Inl out_of_bounds
                   else
                     (let ls = (if var (m_xlits x ! 1) = var l then swap_at (m_xlits x) 0 1 else m_xlits x);
                          st1 = store (Xor (x\<lparr> m_xlits := ls \<rparr>)) st
                      in case xor_count (drop 1 ls) num_marks st1 of
                           (n, st2) \<Rightarrow> Inr (n, r1, st2)))
           | Some c \<Rightarrow> Inr (num_marks, r @ [l], st))
      | _ \<Rightarrow> Inr (num_marks, r @ [l], st))"

function xor_antecedents_loop ::
  "nat option \<Rightarrow> literal \<Rightarrow> justification \<Rightarrow> u32 \<Rightarrow> literal list \<Rightarrow> ba_solver \<Rightarrow> error + (literal list \<times> ba_solver)" where
  "xor_antecedents_loop index l js num_marks r st =
     (case xor_reason l js num_marks r st of
        Inl e \<Rightarrow> Inl e
      | Inr (num_marks1, r1, st1) \<Rightarrow>
          (case xor_walk index l num_marks1 st1 of
             Inl e \<Rightarrow> Inl e
           | Inr (index2, l2, num_marks2, st2) \<Rightarrow>
               if num_marks2 = 0 then Inr (r1, st2)
               else xor_antecedents_loop (dec_idx index2) l2 (m_justification (s st2) (var l2))
                      (num_marks2 - 1) r1 st2))"
  by pat_completeness auto
termination
proof (relation "measure (\<lambda>(index, l, js, num_marks, r, st). idx_measure index)", goal_cases)
  case 1
  show ?case by simp
next
  case (2 index l js num_marks r st x2 num_marks1 y r1 st1 x2a index2 ya l2 yb num_marks2 st2)
  then have "xor_walk index l num_marks1 st1 = Inr (index2, l2, num_marks2, st2)" by simp
  from xor_walk_position [OF this] 2(8)
  have "idx_measure index2 \<le> idx_measure index" "0 < idx_measure index2" by auto
  moreover have "idx_measure (dec_idx index2) < idx_measure index2"
    using \<open>0 < idx_measure index2\<close>
    by (auto simp: idx_measure_def dec_idx_def split: option.splits nat.splits)
  ultimately show ?case by simp
qed

declare xor_antecedents_loop.simps [simp del]

fun xor_parity_trail :: "literal list \<Rightarrow> literal list \<Rightarrow> ba_solver \<Rightarrow> literal list \<times> ba_solver" where
  "xor_parity_trail [] r st = (r, st)"
| "xor_parity_trail (lit # lits) r st =
     xor_parity_trail lits
       (if get_parity st (var lit) mod 2 = 1 then r @ [lit] else r)
       (reset_parity (var lit) st)"

text \<open>\<^verbatim>\<open>get_xor_antecedents(l, index, js, r)\<close>.\<close>

definition get_xor_antecedents ::
  "literal \<Rightarrow> nat option \<Rightarrow> justification \<Rightarrow> literal list \<Rightarrow> ba_solver \<Rightarrow> error + (literal list \<times> ba_solver)" where
  "get_xor_antecedents l index js r st =
     (case xor_antecedents_loop index l js 0 r st of
        Inl e \<Rightarrow> Inl e
      | Inr (r1, st1) \<Rightarrow>
          (case xor_parity_trail (m_parity_trail st1) r1 st1 of
             (r2, st2) \<Rightarrow> Inr (r2, st2\<lparr> m_parity_trail := [] \<rparr>)))"

section \<open>Conflict resolution: the asserting lemma\<close>

text \<open>
  \<^verbatim>\<open>create_asserting_lemma\<close>. The slack starts as the sum of the absolute coefficients
  minus the bound (64-bit signed in the code, unbounded here).
\<close>

fun sum_abs_coeffs :: "bool_var list \<Rightarrow> int \<Rightarrow> ba_solver \<Rightarrow> int \<times> ba_solver" where
  "sum_abs_coeffs [] slack st = (slack, st)"
| "sum_abs_coeffs (v # vs) slack st =
     (case get_abs_coeff v st of (a, st1) \<Rightarrow> sum_abs_coeffs vs (slack + uint a) st1)"

text \<open>
  One round of the loop over the active variables. A false literal of the inequality is
  appended to the lemma, or, at the conflict level, competes for position 0 with the
  largest coefficient. The state carries \<^verbatim>\<open>m_lemma\<close>; the counter \<^verbatim>\<open>num_skipped\<close> only
  feeds the log and is left out.
\<close>

definition lemma_step :: "bool_var \<Rightarrow> int \<times> int \<times> ba_solver \<Rightarrow> int \<times> int \<times> ba_solver" where
  "lemma_step v acc =
     (case acc of (slack, asserting_coeff, st) \<Rightarrow>
       (let coeff = get_coeff st v;
            val = var_value (s st) v;
            is_true = (val = l_true);
            append = (coeff \<noteq> 0 \<and> val \<noteq> l_undef \<and> ((coeff < 0) = is_true))
        in if append then
             (let lit = Lit v (\<not> is_true);
                  st1 = snd (get_abs_coeff v st)
              in if lvl (s st1) lit = m_conflict_lvl st1 then
                   (if m_lemma st1 ! 0 = null_literal then
                      (slack - \<bar>coeff\<bar>, \<bar>coeff\<bar>, st1\<lparr> m_lemma := (m_lemma st1)[0 := neg lit] \<rparr>)
                    else if asserting_coeff < \<bar>coeff\<bar> then
                      (slack - (\<bar>coeff\<bar> - asserting_coeff), \<bar>coeff\<bar>,
                       st1\<lparr> m_lemma := (m_lemma st1)[0 := neg lit] \<rparr>)
                    else (slack, asserting_coeff, st1))
                 else (slack - \<bar>coeff\<bar>, asserting_coeff, st1\<lparr> m_lemma := m_lemma st1 @ [neg lit] \<rparr>))
           else (slack, asserting_coeff, st)))"

fun lemma_pass :: "bool_var list \<Rightarrow> int \<times> int \<times> ba_solver \<Rightarrow> int \<times> int \<times> ba_solver" where
  "lemma_pass [] acc = acc"
| "lemma_pass (v # vs) acc = (if 0 \<le> fst acc then lemma_pass vs (lemma_step v acc) else acc)"

definition max_lvl :: "solver \<Rightarrow> literal list \<Rightarrow> nat" where
  "max_lvl c ls = fold (\<lambda>l m. max m (lvl c l)) ls 0"

text \<open>
  The function starts over (\<^verbatim>\<open>goto adjust_conflict_level\<close>) with a lower conflict level
  when no literal of the lemma is at the conflict level. Whether this ends depends on the
  state, so the result is optional: \<open>None\<close> stands for a run that never returns.
\<close>

partial_function (option) create_asserting_lemma :: "ba_solver \<Rightarrow> (bool \<times> ba_solver) option" where
  "create_asserting_lemma st0 =
     (case sum_abs_coeffs (m_active_vars st0) (- uint (m_bound st0)) st0 of
        (slack0, st1) \<Rightarrow>
          (case lemma_pass (m_active_vars st1) (slack0, 0, st1\<lparr> m_lemma := [null_literal] \<rparr>) of
             (slack, asserting_coeff, st2) \<Rightarrow>
               if 0 \<le> slack then Some (False, st2)
               else if m_lemma st2 ! 0 = null_literal then
                 (if length (m_lemma st2) = 1 then
                    Some (False, st2\<lparr> s := core_set_conflict J_NONE null_literal (s st2) \<rparr>)
                  else
                    create_asserting_lemma
                      (st2\<lparr> m_conflict_lvl := max_lvl (s st2) (tl (m_lemma st2)) \<rparr>))
               else Some (True, st2)))"

section \<open>Conflict resolution: \<^verbatim>\<open>active2card\<close>\<close>

text \<open>\<^verbatim>\<open>compare_wlit\<close>: the heavier weighted literal comes first.\<close>

definition compare_wlit :: "wliteral \<Rightarrow> wliteral \<Rightarrow> bool" where
  "compare_wlit l1 l2 = (fst l2 < fst l1)"

text \<open>The weighted literals of the accumulated inequality, in the order of the active variables.\<close>

fun active_wlits :: "bool_var list \<Rightarrow> ba_solver \<Rightarrow> wliteral list \<times> ba_solver" where
  "active_wlits [] st = ([], st)"
| "active_wlits (v # vs) st =
     (case get_int_coeff v st of
        (coeff, st1) \<Rightarrow>
          (case get_abs_coeff v st1 of
             (a, st2) \<Rightarrow>
               (case active_wlits vs st2 of
                  (wls, st3) \<Rightarrow> ((a, Lit v (coeff < 0)) # wls, st3))))"

text \<open>
  The first loop: the unsigned \<open>k\<close> counts the literals taken until the running sum \<open>acc\<close>
  reaches the bound, \<open>sum0\<close> is the sum before the last one taken. The sums are 64-bit
  unsigned in the code, natural numbers here.
\<close>

fun card_prefix :: "u32 \<Rightarrow> wliteral list \<Rightarrow> u32 \<Rightarrow> nat \<Rightarrow> nat \<Rightarrow> u32 \<times> nat" where
  "card_prefix bound [] k acc sum0 = (k, sum0)"
| "card_prefix bound (wl # wls) k acc sum0 =
     (if unat bound \<le> acc then (k, sum0)
      else card_prefix bound wls (k + 1) (acc + unat (fst wl)) acc)"

text \<open>The second loop drops literals from the end while they still fit under the bound.\<close>

function card_trim :: "u32 \<Rightarrow> wliteral list \<Rightarrow> nat \<Rightarrow> wliteral list" where
  "card_trim bound wls sum0 =
     (if wls = [] then wls
      else if unat bound \<le> unat (fst (last wls)) + sum0 then wls
      else card_trim bound (butlast wls) (sum0 + unat (fst (last wls))))"
  by pat_completeness auto
termination
  by (relation "measure (\<lambda>(bound, wls, sum0). length wls)") auto

declare card_trim.simps [simp del]

text \<open>The unsigned count of the literals that are not false.\<close>

definition card_slack :: "solver \<Rightarrow> wliteral list \<Rightarrow> u32" where
  "card_slack c wls = of_nat (length (filter (\<lambda>wl. lit_value c (snd wl) \<noteq> l_false) wls))"

definition set_glue :: "nat \<Rightarrow> u32 \<Rightarrow> ba_solver \<Rightarrow> ba_solver" where
  "set_glue i glue st =
     (case m_cstore st i of
        Some (Card c) \<Rightarrow> store (Card (c\<lparr> m_glue := glue \<rparr>)) st
      | Some (Pb p) \<Rightarrow> store (Pb (p\<lparr> m_glue := glue \<rparr>)) st
      | Some (Xor x) \<Rightarrow> store (Xor (x\<lparr> m_glue := glue \<rparr>)) st
      | None \<Rightarrow> st)"

text \<open>
  \<^verbatim>\<open>active2card\<close>. The result is the handle of the learned cardinality constraint, or
  null: for \<open>k = 1\<close>, on overflow, and when the reduction is not asserting
  (\<open>slack \<ge> k\<close>; the call of \<^verbatim>\<open>active2constraint\<close> there is compiled out by \<^verbatim>\<open>#if 0\<close>).
\<close>

definition active2card :: "collaborators \<Rightarrow> ba_solver \<Rightarrow> error + (nat option \<times> ba_solver)" where
  "active2card E st0 =
     (let st1 = normalize_active_coeffs st0
      in case active_wlits (m_active_vars st1) st1 of
        (wls0, st2) \<Rightarrow>
          (let sorted = std_sort E compare_wlit wls0
           in case card_prefix (m_bound st2) sorted 0 0 0 of
             (k, sum0) \<Rightarrow>
               if k = 1 then Inr (None, st2)
               else
                 (let wls = card_trim (m_bound st2) sorted sum0;
                      slack = card_slack (s st2) wls
                  in if m_overflow st2 then Inr (None, st2)
                     else if k \<le> slack then Inr (None, st2)
                     else
                       (case add_at_least E null_literal (map snd wls) k True st2 of
                          Inl e \<Rightarrow> Inl e
                        | Inr (None, st3) \<Rightarrow> Inr (None, st3)
                        | Inr (Some i, st3) \<Rightarrow>
                            (let lits = filter (\<lambda>l. lit_value (s st3) l = l_false) (map snd wls);
                                 glue = num_diff_levels E (s st3) lits
                             in Inr (Some i, set_glue i glue st3))))))"

text \<open>
  The weight of a list of weighted literals, and the length of its smallest prefix whose
  weight reaches \<open>B\<close> (the whole length when none does): the number of prefixes, by
  increasing length, whose weight stays below \<open>B\<close>.
\<close>

definition weight :: "wliteral list \<Rightarrow> nat" where
  "weight ws = sum_list (map (\<lambda>wl. unat (fst wl)) ws)"





section \<open>Conflict resolution: \<^verbatim>\<open>resolve_conflict\<close>\<close>

text \<open>
  The reason of the consequent is a long clause: the consequent itself enters the
  inequality, every other literal of the clause is an antecedent. Reading the first
  literal of an empty clause is \<open>out_of_bounds\<close>.
\<close>

definition resolve_clause :: "literal \<Rightarrow> literal list \<Rightarrow> u32 \<Rightarrow> ba_solver \<Rightarrow> error + ba_solver" where
  "resolve_clause consequent c offset st =
     (if consequent \<noteq> null_literal then
        (let st1 = inc_coeff consequent offset st
         in if c = [] then Inl out_of_bounds
            else if c ! 0 = consequent then Inr (process_antecedents (drop 1 c) offset st1)
            else Inr (process_antecedents (drop 2 c) offset (process_antecedent (c ! 0) offset st1)))
      else Inr (process_antecedents c offset st))"

text \<open>
  One resolution step: the \<^verbatim>\<open>switch\<close> on the kind of the justification. (The static
  \<^verbatim>\<open>_debug_consequent\<close> and \<^verbatim>\<open>_debug_var2position\<close> only feed the log and are left out.)
\<close>

definition resolve_step ::
  "nat option \<Rightarrow> literal \<Rightarrow> justification \<Rightarrow> u32 \<Rightarrow> ba_solver \<Rightarrow> error + ba_solver" where
  "resolve_step idx consequent js offset st =
     (case js of
        J_NONE \<Rightarrow> Inr (inc_bound (uint offset) st)
      | J_BINARY l \<Rightarrow>
          Inr (process_antecedent l offset (inc_coeff consequent offset (inc_bound (uint offset) st)))
      | J_TERNARY l1 l2 \<Rightarrow>
          Inr (process_antecedent l2 offset (process_antecedent l1 offset
                 (inc_coeff consequent offset (inc_bound (uint offset) st))))
      | J_CLAUSE off \<Rightarrow>
          resolve_clause consequent (m_cls (s st) off) offset (inc_bound (uint offset) st)
      | J_EXT i \<Rightarrow>
          (case m_cstore st i of
             None \<Rightarrow> Inl out_of_bounds
           | Some cn \<Rightarrow>
               (let st1 = st\<lparr> m_stats := (m_stats st)\<lparr> m_num_resolves := m_num_resolves (m_stats st) + 1 \<rparr> \<rparr>
                in case cn of
                     Card c \<Rightarrow> process_card c offset (inc_bound (uint offset * uint (m_k c)) st1)
                   | Pb p \<Rightarrow>
                       (let st2 = inc_coeff consequent offset (inc_bound (uint offset) (st1\<lparr> m_lemma := [] \<rparr>));
                            lemma = get_antecedents_pb (s st2) consequent p []
                        in Inr (process_antecedents (map neg lemma) offset (st2\<lparr> m_lemma := lemma \<rparr>)))
                   | Xor x \<Rightarrow>
                       (let st2 = inc_coeff consequent offset (inc_bound (uint offset) (st1\<lparr> m_lemma := [] \<rparr>))
                        in case get_xor_antecedents consequent idx js [] st2 of
                             Inl e \<Rightarrow> Inl e
                           | Inr (lemma, st3) \<Rightarrow>
                               Inr (process_antecedents (map neg lemma) offset (st3\<lparr> m_lemma := lemma \<rparr>))))))"

text \<open>The next marked variable at or below a (valid) trail position.\<close>

fun find_marked :: "solver \<Rightarrow> nat \<Rightarrow> nat option" where
  "find_marked c 0 = (if is_marked c (var (m_trail c ! 0)) then Some 0 else None)"
| "find_marked c (Suc i) =
     (if is_marked c (var (m_trail c ! Suc i)) then Some (Suc i) else find_marked c i)"

text \<open>
  \<^verbatim>\<open>process_next_resolvent\<close>: find the next marked variable, unmark it, step below it,
  and read its justification and its coefficient, clipped to the bound. The result
  \<open>None\<close> is the jump to \<^verbatim>\<open>bail_out\<close> at position 0.
\<close>

definition next_resolvent ::
  "nat option \<Rightarrow> ba_solver \<Rightarrow> error + (nat option \<times> literal \<times> justification \<times> u32 \<times> ba_solver) option" where
  "next_resolvent idx st =
     (case idx of
        None \<Rightarrow> Inl out_of_bounds
      | Some i \<Rightarrow>
          if length (m_trail (s st)) \<le> i then Inl out_of_bounds
          else
            (case find_marked (s st) i of
               None \<Rightarrow> Inr None
             | Some j \<Rightarrow>
                 (let consequent = m_trail (s st) ! j;
                      v = var consequent;
                      st1 = st\<lparr> s := reset_mark v (s st), m_num_marks := m_num_marks st - 1 \<rparr>;
                      js = m_justification (s st1) v
                  in case get_abs_coeff v st1 of
                       (offset, st2) \<Rightarrow>
                         if m_bound st2 < offset then
                           Inr (Some (dec_idx (Some j), consequent, js, m_bound st2,
                                  st2\<lparr> m_coeffs := (m_coeffs st2)
                                         (v := (if get_coeff st2 v < 0 then - uint (m_bound st2)
                                                else uint (m_bound st2))) \<rparr>))
                         else Inr (Some (dec_idx (Some j), consequent, js, offset, st2)))))"

lemma find_marked_le: "find_marked c i = Some j \<Longrightarrow> j \<le> i"
  by (induction i) (auto split: if_splits)

lemma next_resolvent_position:
  "next_resolvent idx st = Inr (Some (idx2, consequent2, js2, offset2, st2)) \<Longrightarrow>
   idx_measure idx2 < idx_measure idx"
  by (auto simp: next_resolvent_def idx_measure_def dec_idx_def Let_def
           split: option.splits if_splits prod.splits nat.splits dest: find_marked_le)

text \<open>
  \<^verbatim>\<open>bail_out\<close>: clear the overflow flag and unmark the marked variables from the current
  position downwards. The first time the loop gets to position 0 (the static
  \<^verbatim>\<open>_debug_conflict\<close>, here \<open>dbg\<close>, is still false) it unmarks every variable of the trail
  and runs \<^verbatim>\<open>resolve_conflict\<close> once more, ignoring its result; \<open>rerun\<close> is that nested run.
  The position is unsigned, so the test \<^verbatim>\<open>idx >= 0\<close> always holds.
\<close>

fun reset_marks :: "literal list \<Rightarrow> solver \<Rightarrow> solver" where
  "reset_marks [] c = c"
| "reset_marks (l # ls) c = reset_marks ls (if is_marked c (var l) then reset_mark (var l) c else c)"

function bail_loop ::
  "(ba_solver \<Rightarrow> (error + ba_solver) option) \<Rightarrow> bool \<Rightarrow> nat option \<Rightarrow> ba_solver \<Rightarrow>
   (error + bool \<times> ba_solver) option" where
  "bail_loop rerun dbg idx st =
     (if 0 < m_num_marks st then
        (case trail_at (s st) idx of
           Inl e \<Rightarrow> Some (Inl e)
         | Inr l \<Rightarrow>
             (let st1 = (if is_marked (s st) (var l)
                         then st\<lparr> s := reset_mark (var l) (s st), m_num_marks := m_num_marks st - 1 \<rparr>
                         else st)
              in if idx = Some 0 \<and> \<not> dbg then
                   (case rerun (st1\<lparr> s := reset_marks (m_trail (s st1)) (s st1), m_num_marks := 0 \<rparr>) of
                      None \<Rightarrow> None
                    | Some (Inl e) \<Rightarrow> Some (Inl e)
                    | Some (Inr st2) \<Rightarrow> bail_loop rerun True (dec_idx idx) st2)
                 else bail_loop rerun dbg (dec_idx idx) st1))
      else Some (Inr (dbg, st)))"
  by pat_completeness auto
termination
  by (relation "measure (\<lambda>(rerun, dbg, idx, st). idx_measure idx)")
     (auto simp: trail_at_def idx_measure_def dec_idx_def split: option.splits if_splits nat.splits)

declare bail_loop.simps [simp del]

definition bail_out ::
  "(ba_solver \<Rightarrow> (error + ba_solver) option) \<Rightarrow> bool \<Rightarrow> nat option \<Rightarrow> ba_solver \<Rightarrow>
   (error + lbool \<times> bool \<times> ba_solver) option" where
  "bail_out rerun dbg idx st =
     (case bail_loop rerun dbg idx (st\<lparr> m_overflow := False \<rparr>) of
        None \<Rightarrow> None
      | Some (Inl e) \<Rightarrow> Some (Inl e)
      | Some (Inr (dbg1, st1)) \<Rightarrow> Some (Inr (l_undef, dbg1, st1)))"

text \<open>
  After the loop: normalise, build the asserting lemma, learn the cardinality constraint,
  and hand the lemma to the core, marking the variables of its tail. (DRAT logging is
  output only and left out.)
\<close>

fun mark_all :: "literal list \<Rightarrow> solver \<Rightarrow> solver" where
  "mark_all [] c = c"
| "mark_all (l # ls) c = mark_all ls (mark (var l) c)"

definition resolve_commit ::
  "(ba_solver \<Rightarrow> (error + ba_solver) option) \<Rightarrow> bool \<Rightarrow> nat option \<Rightarrow> ba_solver \<Rightarrow>
   (error + lbool \<times> bool \<times> ba_solver) option" where
  "resolve_commit rerun dbg idx st =
     (if m_overflow st then bail_out rerun dbg idx st
      else
        Some (Inr (l_true, dbg,
          st\<lparr> s := mark_all (drop 1 (m_lemma st)) ((s st)\<lparr> m_core_lemma := m_lemma st \<rparr>) \<rparr>)))"

definition resolve_learn ::
  "collaborators \<Rightarrow> (ba_solver \<Rightarrow> (error + ba_solver) option) \<Rightarrow> bool \<Rightarrow> nat option \<Rightarrow> ba_solver \<Rightarrow>
   (error + lbool \<times> bool \<times> ba_solver) option" where
  "resolve_learn E rerun dbg idx st =
     (case active2card E st of
        Inl e \<Rightarrow> Some (Inl e)
      | Inr (c, st1) \<Rightarrow> resolve_commit rerun dbg idx st1)"

definition resolve_finish ::
  "collaborators \<Rightarrow> (ba_solver \<Rightarrow> (error + ba_solver) option) \<Rightarrow> bool \<Rightarrow> nat option \<Rightarrow> ba_solver \<Rightarrow>
   (error + lbool \<times> bool \<times> ba_solver) option" where
  "resolve_finish E rerun dbg idx st =
     (case create_asserting_lemma (normalize_active_coeffs st) of
        None \<Rightarrow> None
      | Some (False, st1) \<Rightarrow> bail_out rerun dbg idx st1
      | Some (True, st1) \<Rightarrow> resolve_learn E rerun dbg idx st1)"

text \<open>
  The \<^verbatim>\<open>do \<dots> while (m_num_marks > 0)\<close> loop, entered at its head with the current
  position, consequent, justification and offset.
\<close>

function resolve_loop ::
  "collaborators \<Rightarrow> (ba_solver \<Rightarrow> (error + ba_solver) option) \<Rightarrow> bool \<Rightarrow> nat option \<Rightarrow> literal \<Rightarrow>
   justification \<Rightarrow> u32 \<Rightarrow> ba_solver \<Rightarrow> (error + lbool \<times> bool \<times> ba_solver) option" where
  "resolve_loop E rerun dbg idx consequent js offset st =
     (if m_overflow st \<or> 4096 < offset then bail_out rerun dbg idx st
      else
        (case (if offset = 0 then Inr st
               else case resolve_step idx consequent js offset st of
                      Inl e \<Rightarrow> Inl e
                    | Inr st1 \<Rightarrow> Inr (cut st1)) of
           Inl e \<Rightarrow> Some (Inl e)
         | Inr st1 \<Rightarrow>
             (case next_resolvent idx st1 of
                Inl e \<Rightarrow> Some (Inl e)
              | Inr None \<Rightarrow> bail_out rerun dbg (Some 0) st1
              | Inr (Some (idx2, consequent2, js2, offset2, st2)) \<Rightarrow>
                  if 0 < m_num_marks st2 then resolve_loop E rerun dbg idx2 consequent2 js2 offset2 st2
                  else resolve_finish E rerun dbg idx2 st2)))"
  by pat_completeness auto
termination
  by (relation "measure (\<lambda>(E, rerun, dbg, idx, consequent, js, offset, st). idx_measure idx)")
     (auto dest: next_resolvent_position)

declare resolve_loop.simps [simp del]




text \<open>
  \<^verbatim>\<open>resolve_conflict\<close>, with the nested run of \<^verbatim>\<open>bail_out\<close> as a parameter. Without an
  extension propagation since the last \<^verbatim>\<open>pop\<close> the function returns at once. The first
  position is \<^verbatim>\<open>lits.size() - 1\<close>, which wraps around for an empty trail.
\<close>

definition resolve_conflict_core ::
  "collaborators \<Rightarrow> (ba_solver \<Rightarrow> (error + ba_solver) option) \<Rightarrow> bool \<Rightarrow> ba_solver \<Rightarrow>
   (error + lbool \<times> bool \<times> ba_solver) option" where
  "resolve_conflict_core E rerun dbg st =
     (if 0 = m_num_propagations_since_pop st then Some (Inr (l_undef, dbg, st))
      else
        (let st1 = (reset_coeffs (st\<lparr> m_overflow := False \<rparr>))\<lparr> m_num_marks := 0, m_bound := 0 \<rparr>;
             consequent = m_not_l (s st1);
             js = m_conflict (s st1);
             st2 = st1\<lparr> m_conflict_lvl := get_max_lvl E (s st1) consequent js \<rparr>;
             idx = (if m_trail (s st2) = [] then None else Some (length (m_trail (s st2)) - 1))
         in if consequent \<noteq> null_literal then
              resolve_loop E rerun dbg idx (neg consequent) js 1
                (process_antecedent (neg consequent) 1 st2)
            else resolve_loop E rerun dbg idx consequent js 1 st2))"

text \<open>
  The nested run starts with the static flag set, so it never starts a further run; its
  result is ignored, its state is kept.
\<close>

definition resolve_conflict_again :: "collaborators \<Rightarrow> ba_solver \<Rightarrow> (error + ba_solver) option" where
  "resolve_conflict_again E st =
     (case resolve_conflict_core E (\<lambda>st'. Some (Inr st')) True st of
        None \<Rightarrow> None
      | Some (Inl e) \<Rightarrow> Some (Inl e)
      | Some (Inr (r, dbg1, st1)) \<Rightarrow> Some (Inr st1))"

definition resolve_conflict ::
  "collaborators \<Rightarrow> bool \<Rightarrow> ba_solver \<Rightarrow> (error + lbool \<times> bool \<times> ba_solver) option" where
  "resolve_conflict E dbg st = resolve_conflict_core E (resolve_conflict_again E) dbg st"

text \<open>
  \<^verbatim>\<open>pop(n)\<close>: restore the size of the reinit queue of \<open>n\<close> scopes ago and reset the count of
  propagations. The read \<^verbatim>\<open>m_constraint_to_reinit_lim[size - n]\<close> is inside the vector for
  \<open>0 < n \<le> size\<close> only.
\<close>

definition pop :: "nat \<Rightarrow> ba_solver \<Rightarrow> error + ba_solver" where
  "pop n st =
     (let lim = m_constraint_to_reinit_lim st
      in if 0 < n \<and> n \<le> length lim then
           Inr (st\<lparr> m_constraint_to_reinit_last_sz := lim ! (length lim - n),
                    m_constraint_to_reinit_lim := take (length lim - n) lim,
                    m_num_propagations_since_pop := 0 \<rparr>)
         else Inl out_of_bounds)"

section \<open>A fresh solver and the core's decisions\<close>

text \<open>
  The state of a newly constructed extension on a core without variables assigned:
  every variable is unassigned at level 0, nothing is marked, no constraint exists.
\<close>

definition new_core :: solver where
  "new_core =
     \<lparr> m_assignment = (\<lambda>v. l_undef), m_level = (\<lambda>v. 0), m_justification = (\<lambda>v. J_NONE),
       m_trail = [], m_mark = (\<lambda>v. False), m_inconsistent = False, m_conflict = J_NONE,
       m_not_l = null_literal, m_scope_lvl = 0, m_core_lemma = [], m_cls = (\<lambda>i. []),
       m_new_clauses = [], m_external = (\<lambda>v. False), m_watches = (\<lambda>l. []) \<rparr>"

definition new_ba_solver :: ba_solver where
  "new_ba_solver =
     \<lparr> s = new_core, m_cstore = (\<lambda>i. None), m_constraints = [], m_learned_v = [],
       m_constraint_to_reinit = [], m_constraint_to_reinit_lim = [],
       m_constraint_to_reinit_last_sz = 0, m_constraint_id = 0,
       m_coeffs = (\<lambda>v. 0), m_active_vars = [], m_bound = 0, m_overflow = False,
       m_num_marks = 0, m_conflict_lvl = 0, m_lemma = [], m_a_max = 0, m_pb_undef = [],
       m_num_propagations_since_pop = 0,
       m_stats = \<lparr> m_num_propagations = 0, m_num_conflicts = 0, m_num_resolves = 0, m_num_cut = 0 \<rparr>,
       m_parity_marks = (\<lambda>v. 0), m_parity_trail = [] \<rparr>"

text \<open>
  Insertion sort under a comparator, from the last element to the first: an element goes
  behind those that the comparator puts before it, so elements that the comparator does
  not separate keep their order.
\<close>

fun insert_by :: "('a \<Rightarrow> 'a \<Rightarrow> bool) \<Rightarrow> 'a \<Rightarrow> 'a list \<Rightarrow> 'a list" where
  "insert_by cmp x [] = [x]"
| "insert_by cmp x (y # ys) = (if cmp y x then y # insert_by cmp x ys else x # y # ys)"

definition insertion_sort :: "('a \<Rightarrow> 'a \<Rightarrow> bool) \<Rightarrow> 'a list \<Rightarrow> 'a list" where
  "insertion_sort cmp xs = foldr (insert_by cmp) xs []"

definition no_collaborators :: collaborators where
  "no_collaborators =
     \<lparr> xor_negate = (\<lambda>x. x), num_diff_false_levels_below = (\<lambda>c ls g. None),
       num_diff_levels = (\<lambda>c ls. of_nat (length (remdups (map (lvl c) ls)))),
       get_max_lvl = (\<lambda>c l j. m_scope_lvl c),
       std_sort = insertion_sort \<rparr>"

text \<open>
  Modelled from the spec: a decision of the core opens a new level and puts the literal
  on the trail without justification.
\<close>

definition decide :: "literal \<Rightarrow> ba_solver \<Rightarrow> ba_solver" where
  "decide l st =
     st\<lparr> s := assign_core l J_NONE ((s st)\<lparr> m_scope_lvl := m_scope_lvl (s st) + 1 \<rparr>) \<rparr>"

definition pos :: "bool_var \<Rightarrow> literal" where
  "pos v = Lit v False"

section \<open>The end-to-end scenarios\<close>

text \<open>
  A scenario is a sequence of calls on a fresh solver: create the constraint, let the
  core assign a literal, let the extension propagate that assignment to the constraint.
\<close>

definition then_decide :: "literal \<Rightarrow> error + ('a \<times> ba_solver) \<Rightarrow> error + ('a \<times> ba_solver)" where
  "then_decide l r = (case r of Inl e \<Rightarrow> Inl e | Inr (x, st) \<Rightarrow> Inr (x, decide l st))"

definition then_propagate ::
  "literal \<Rightarrow> nat \<Rightarrow> error + ('a \<times> ba_solver) \<Rightarrow> error + (bool \<times> ba_solver)" where
  "then_propagate l idx r =
     (case r of Inl e \<Rightarrow> Inl e | Inr (x, st) \<Rightarrow> propagate no_collaborators l idx st)"

definition card_scenario :: "u32 \<Rightarrow> error + (nat option \<times> ba_solver)" where
  "card_scenario k =
     add_at_least no_collaborators null_literal [pos 1, pos 2, pos 3, pos 4] k False new_ba_solver"

definition pb_scenario :: "error + (nat option \<times> ba_solver)" where
  "pb_scenario =
     add_pb_ge no_collaborators null_literal
       [(5, pos 1), (4, pos 2), (3, pos 3), (2, pos 4), (1, pos 5)] 7 False new_ba_solver"

section \<open>Example scratchpads\<close>

text \<open>The inequality \<open>6 x\<^sub>0 + 4 x\<^sub>1 \<ge> 4\<close>, and \<open>x\<^sub>0 + 2 x\<^sub>1 \<ge> 2\<close> with a unit coefficient.\<close>

definition cut_example :: ba_solver where
  "cut_example =
     new_ba_solver\<lparr> m_coeffs := (\<lambda>v. 0)(0 := 6, 1 := 4), m_active_vars := [0, 1], m_bound := 4 \<rparr>"

definition unit_example :: ba_solver where
  "unit_example =
     new_ba_solver\<lparr> m_coeffs := (\<lambda>v. 0)(0 := 1, 1 := 2), m_active_vars := [0, 1], m_bound := 2 \<rparr>"

text \<open>An empty inequality with bound 5.\<close>

definition bound5 :: ba_solver where
  "bound5 = new_ba_solver\<lparr> m_bound := 5 \<rparr>"

text \<open>The sum of the clipped coefficients of a pb constraint, as a natural number.\<close>

definition clipped_sum :: "u32 \<Rightarrow> wliteral list \<Rightarrow> nat" where
  "clipped_sum k wlits = sum_list (map (\<lambda>wl. unat (min k (fst wl))) wlits)"


text \<open>
  A solver one scope deep with three extension propagations since the last \<^verbatim>\<open>pop\<close>, a
  marked variable, and the inequality \<open>2 \<not>x\<^sub>1 \<ge> 2\<close> left on the scratchpad.
\<close>

definition busy_scratchpad :: ba_solver where
  "busy_scratchpad =
     new_ba_solver\<lparr> s := mark 1 new_core, m_coeffs := (\<lambda>v. 0)(1 := - 2), m_active_vars := [1],
       m_bound := 2, m_num_marks := 1, m_num_propagations_since_pop := 3,
       m_constraint_to_reinit_lim := [0] \<rparr>"



section \<open>Conflict resolution: what an aborted run leaves behind\<close>





text \<open>
  The state outside the resolver's scratchpad: the coefficients, the active variables, the
  bound, the overflow flag, the number of marks, the conflict level, the lemma under
  construction, the cut counter and the marks are blanked. Two states with the same
  \<open>persistent\<close> part have the same trail, assignment, justifications, constraints, watch
  lists, learned constraints, clauses and core lemma.
\<close>

definition persistent :: "ba_solver \<Rightarrow> ba_solver" where
  "persistent st =
     st\<lparr> s := (s st)\<lparr> m_mark := (\<lambda>v. False) \<rparr>, m_coeffs := (\<lambda>v. 0), m_active_vars := [],
         m_bound := 0, m_overflow := False, m_num_marks := 0, m_conflict_lvl := 0, m_lemma := [],
         m_stats := (m_stats st)\<lparr> m_num_cut := 0 \<rparr> \<rparr>"

text \<open>
  A step that only works on the scratchpad: it keeps the persistent part, the marks and their
  count, does not clear a latched overflow flag and adds no active variable.
\<close>

definition scratch_step :: "ba_solver \<Rightarrow> ba_solver \<Rightarrow> bool" where
  "scratch_step st st' \<longleftrightarrow>
     persistent st' = persistent st \<and> m_mark (s st') = m_mark (s st) \<and>
     m_num_marks st' = m_num_marks st \<and> (m_overflow st \<longrightarrow> m_overflow st') \<and>
     set (m_active_vars st') \<subseteq> set (m_active_vars st)"






text \<open>
  A scratchpad in the middle of a resolution: the trail is \<open>x\<^sub>1, \<not>x\<^sub>2, x\<^sub>3\<close> at level 1, \<open>x\<^sub>3\<close>
  was propagated by the binary clause \<open>x\<^sub>3 \<or> x\<^sub>2\<close>, the variable \<open>x\<^sub>2\<close> is marked, and the
  coefficient of \<open>x\<^sub>2\<close> is \<open>2\<^sup>3\<^sup>1 - 1\<close>. Resolving with the binary clause adds 1 to it and latches
  the overflow flag (\<open>overflow_latched\<close>). In \<open>small_example\<close> the coefficient is 5.
\<close>

definition overflow_example :: ba_solver where
  "overflow_example =
     new_ba_solver\<lparr> s := new_core\<lparr> m_assignment := (\<lambda>v. l_undef)(1 := l_true, 2 := l_false, 3 := l_true),
                                   m_level := (\<lambda>v. 0)(1 := 1, 2 := 1, 3 := 1),
                                   m_justification := (\<lambda>v. J_NONE)(3 := J_BINARY (pos 2)),
                                   m_trail := [pos 1, neg (pos 2), pos 3],
                                   m_mark := (\<lambda>v. False)(2 := True),
                                   m_inconsistent := True, m_scope_lvl := 1 \<rparr>,
       m_coeffs := (\<lambda>v. 0)(2 := 2147483647, 3 := - 1), m_active_vars := [2, 3],
       m_bound := 2147483647, m_num_marks := 1, m_conflict_lvl := 1,
       m_num_propagations_since_pop := 1 \<rparr>"

definition small_example :: ba_solver where
  "small_example = overflow_example\<lparr> m_coeffs := (\<lambda>v. 0)(2 := 5, 3 := - 1), m_bound := 5 \<rparr>"


section \<open>Negation is an involution\<close>

lemma neg_neg: "neg (neg l) = l"
  by (cases l) (simp add: neg_def)

lemma neg_comp_neg: "neg \<circ> neg = id"
  by (rule ext) (simp add: neg_neg)

lemma map_neg_neg: "map neg (map neg ls) = ls"
  by (induction ls) (simp_all add: neg_neg)

lemma pb_negate_loop_snd: "snd (pb_negate_loop wls w) = w + sum_list (map fst wls)"
  by (induction wls w rule: pb_negate_loop.induct) (auto split: prod.splits simp: add.assoc)

lemma pb_negate_loop_fst:
  "fst (pb_negate_loop wls w) = map (\<lambda>(a, l). (a, neg l)) wls"
  by (induction wls w rule: pb_negate_loop.induct) (auto split: prod.splits)

lemma pb_negate_loop_eq:
  "pb_negate_loop wls w = (map (\<lambda>(a, l). (a, neg l)) wls, w + sum_list (map fst wls))"
  using pb_negate_loop_fst [of wls w] pb_negate_loop_snd [of wls w]
  by (cases "pb_negate_loop wls w") simp

lemma wneg_comp_wneg: "(\<lambda>(a, l). (a, neg l)) \<circ> (\<lambda>(a, l). (a, neg l)) = id"
  by (rule ext) (auto simp: neg_neg)

lemma fst_comp_wneg: "fst \<circ> (\<lambda>(a, l). (a, neg l)) = fst"
  by (rule ext) auto

text \<open>
  C8. For every cardinality constraint and every pb constraint, negating twice restores
  the original size, threshold and literal sequence (and the weights of a pb); the model
  shows that the whole object is restored, the reifier included.
\<close>

theorem negate_involution:
  "card_negate (card_negate c) = c \<and>
   card_size (card_negate (card_negate c)) = card_size c \<and>
   m_k (card_negate (card_negate c)) = m_k c \<and>
   m_lits (card_negate (card_negate c)) = m_lits c \<and>
   pb_negate (pb_negate p) = p \<and>
   pb_size (pb_negate (pb_negate p)) = pb_size p \<and>
   m_k (pb_negate (pb_negate p)) = m_k p \<and>
   m_wlits (pb_negate (pb_negate p)) = m_wlits p"
proof -
  have c: "card_negate (card_negate c) = c"
    by (simp add: card_negate_def neg_neg neg_comp_neg)
  have p: "pb_negate (pb_negate p) = p"
    by (simp add: pb_negate_def pb_negate_loop_eq neg_neg wneg_comp_wneg fst_comp_wneg)
  show ?thesis
    by (simp add: c p)
qed

section \<open>Scenario 1: cardinality propagation\<close>

lemmas scenario_defs =
  then_decide_def then_propagate_def card_scenario_def pb_scenario_def
  add_at_least_def add_pb_ge_def add_constraint_def init_watch_def lift_res_def
  mk_card_def mk_pb_def new_ba_solver_def new_core_def no_collaborators_def null_literal_def
  null_bool_var_def pos_def obj_lit_def obj_id_def obj_learned_def store_def at_base_lvl_def
  lit_value_def neg_def swap_at_def watch_literal_def unwatch_literal_def is_watched_def
  inconsistent_def propagate_def add_assign_def decide_def assign_core_def assign_def
  core_assign_def set_conflict_def core_set_conflict_def get_wlist_push_def set_external_def
  mk_clause_def Let_def

lemmas card_defs =
  init_watch_card_def clear_watch_card_def card_partition.simps card_max_level.simps
  add_assign_card_def card_find_index.simps card_find_swap.simps

lemmas pb_defs =
  init_watch_pb_def clear_watch_pb_def pb_partition.simps pb_max_level.simps
  add_assign_pb_def pb_find_index.simps pb_scan_undef.simps pb_pull.simps add_index_def

text \<open>
  After creation all four literals are watched and nothing is assigned.
\<close>

lemma card_scenario_created:
  "(case card_scenario 3 of
      Inr (h, st) \<Rightarrow>
        h = Some 0 \<and> m_trail (s st) = [] \<and>
        is_watched st (pos 1) 0 \<and> is_watched st (pos 2) 0 \<and>
        is_watched st (pos 3) 0 \<and> is_watched st (pos 4) 0
    | Inl e \<Rightarrow> False)"
  by (simp add: scenario_defs card_defs)

text \<open>
  C1 (as stated, refuted). The claim says that assigning \<open>x1 = false\<close> to
  \<open>x1 + x2 + x3 + x4 \<ge> 3\<close> produces no propagation, that is, the trail holds the
  decision only. It does not: three literals are propagated.
\<close>

theorem card_scenario_no_propagation_counterexample:
  "\<not> (case then_propagate (neg (pos 1)) 0 (then_decide (neg (pos 1)) (card_scenario 3)) of
        Inr (keep, st) \<Rightarrow> m_trail (s st) = [neg (pos 1)]
      | Inl e \<Rightarrow> False)"
  by (simp add: scenario_defs card_defs)

text \<open>
  C1 (amended). For \<open>x1 + x2 + x3 + x4 \<ge> 3\<close> created with all variables unassigned
  (all four literals watched), the assignment \<open>x1 = false\<close> makes \<^verbatim>\<open>add_assign\<close> propagate
  \<open>x4\<close>, \<open>x2\<close> and \<open>x3\<close> to true, in this order and without conflict; the watch is kept,
  the body becomes \<open>x4, x2, x3, x1\<close> (a non-false prefix of size 3) and all four literals
  are still watched. So \<open>x3\<close> and \<open>x4\<close> are true before \<open>x2\<close> is assigned, and \<open>x2\<close>
  is true as well.
\<close>

theorem card_scenario_propagates_at_once:
  "(case then_propagate (neg (pos 1)) 0 (then_decide (neg (pos 1)) (card_scenario 3)) of
      Inr (keep, st) \<Rightarrow>
        keep \<and>
        m_trail (s st) = [neg (pos 1), pos 4, pos 2, pos 3] \<and>
        \<not> m_inconsistent (s st) \<and>
        m_num_propagations_since_pop st = 3 \<and>
        (case m_cstore st 0 of
           Some (Card c) \<Rightarrow> m_lits c = [pos 4, pos 2, pos 3, pos 1] \<and> m_k c = 3
         | _ \<Rightarrow> False) \<and>
        is_watched st (pos 1) 0 \<and> is_watched st (pos 2) 0 \<and>
        is_watched st (pos 3) 0 \<and> is_watched st (pos 4) 0 \<and>
        lit_value (s st) (pos 1) = l_false \<and> lit_value (s st) (pos 2) = l_true \<and>
        lit_value (s st) (pos 3) = l_true \<and> lit_value (s st) (pos 4) = l_true
    | Inl e \<Rightarrow> False)"
  by (simp add: scenario_defs card_defs)

text \<open>
  The behaviour that the scenario describes is that of the threshold 2: the first
  assignment only moves the watch to \<open>x4\<close>, the second one propagates \<open>x4\<close> and \<open>x3\<close>.
\<close>

lemma card_scenario_threshold_2:
  "(case then_propagate (neg (pos 1)) 0 (then_decide (neg (pos 1)) (card_scenario 2)) of
      Inr (keep, st) \<Rightarrow>
        \<not> keep \<and> m_trail (s st) = [neg (pos 1)] \<and>
        (case then_propagate (neg (pos 2)) 0 (then_decide (neg (pos 2)) (Inr (keep, st))) of
           Inr (keep', st') \<Rightarrow>
             keep' \<and> m_trail (s st') = [neg (pos 1), neg (pos 2), pos 4, pos 3]
         | Inl e \<Rightarrow> False)
    | Inl e \<Rightarrow> False)"
  by (simp add: scenario_defs card_defs)

section \<open>Scenario 2: growth of the pb watch set\<close>

text \<open>
  C2 (as stated, refuted). The claim says that after \<open>x1 = false\<close> exactly \<open>x3\<close> has been
  pulled into the watched prefix (three watched terms before the false one is dropped,
  slack 7) and that nothing is propagated. The code pulls \<open>x3\<close>, \<open>x4\<close> and \<open>x5\<close> (slack
  10) and propagates \<open>x2\<close>.
\<close>

theorem pb_scenario_pull_counterexample:
  "\<not> (case then_propagate (neg (pos 1)) 0 (then_decide (neg (pos 1)) pb_scenario) of
        Inr (keep, st) \<Rightarrow>
          m_trail (s st) = [neg (pos 1)] \<and>
          (case m_cstore st 0 of Some (Pb p) \<Rightarrow> m_slack p = 7 | _ \<Rightarrow> False)
      | Inl e \<Rightarrow> False)"
  by (simp add: scenario_defs pb_defs)

text \<open>
  C2 (amended). For \<open>5 x1 + 4 x2 + 3 x3 + 2 x4 + x5 \<ge> 7\<close> with all variables unassigned,
  \<^verbatim>\<open>init_watch\<close> watches exactly \<open>5 x1\<close> and \<open>4 x2\<close> with slack 9. Assigning \<open>x1 = false\<close>
  makes \<^verbatim>\<open>add_assign\<close> pull \<open>x3\<close>, \<open>x4\<close> and \<open>x5\<close> into the watched prefix (the scan goes on
  while \<open>slack < k + a_max = 11\<close>; slack \<open>4 + 3 + 2 + 1 = 10\<close>), drop \<open>x1\<close> from the
  prefix and propagate exactly \<open>x2 = true\<close>, without conflict. When \<open>x2\<close> is false as
  well at that moment (both assigned before the extension runs), the call for \<open>x1\<close>
  pulls \<open>x3\<close>, \<open>x4\<close>, \<open>x5\<close> and the call for \<open>x2\<close> reports a conflict, the remaining
  total \<open>3 + 2 + 1 = 6\<close> being below the bound 7.
\<close>

theorem pb_scenario_watch_growth:
  "(case pb_scenario of
      Inr (h, st) \<Rightarrow>
        h = Some 0 \<and>
        (case m_cstore st 0 of
           Some (Pb p) \<Rightarrow>
             m_num_watch p = 2 \<and> m_slack p = 9 \<and>
             take 2 (m_wlits p) = [(5, pos 1), (4, pos 2)]
         | _ \<Rightarrow> False) \<and>
        is_watched st (pos 1) 0 \<and> is_watched st (pos 2) 0 \<and> \<not> is_watched st (pos 3) 0 \<and>
        \<not> is_watched st (pos 4) 0 \<and> \<not> is_watched st (pos 5) 0
    | Inl e \<Rightarrow> False) \<and>
   (case then_propagate (neg (pos 1)) 0 (then_decide (neg (pos 1)) pb_scenario) of
      Inr (keep, st) \<Rightarrow>
        \<not> keep \<and>
        m_trail (s st) = [neg (pos 1), pos 2] \<and>
        \<not> m_inconsistent (s st) \<and>
        (case m_cstore st 0 of
           Some (Pb p) \<Rightarrow>
             m_num_watch p = 4 \<and> m_slack p = 10 \<and>
             m_wlits p = [(1, pos 5), (4, pos 2), (3, pos 3), (2, pos 4), (5, pos 1)]
         | _ \<Rightarrow> False) \<and>
        is_watched st (pos 3) 0 \<and> is_watched st (pos 4) 0 \<and> is_watched st (pos 5) 0
    | Inl e \<Rightarrow> False) \<and>
   (case then_propagate (neg (pos 2)) 0
           (then_propagate (neg (pos 1)) 0
              (then_decide (neg (pos 2)) (then_decide (neg (pos 1)) pb_scenario))) of
      Inr (keep, st) \<Rightarrow>
        keep \<and>
        m_inconsistent (s st) \<and> m_conflict (s st) = J_EXT 0 \<and> m_not_l (s st) = neg (pos 2) \<and>
        m_trail (s st) = [neg (pos 1), neg (pos 2)] \<and>
        (case m_cstore st 0 of
           Some (Pb p) \<Rightarrow> m_num_watch p = 4 \<and> m_slack p = 10
         | _ \<Rightarrow> False)
    | Inl e \<Rightarrow> False)"
  by (simp add: scenario_defs pb_defs)

section \<open>Clipping in \<^verbatim>\<open>inc_coeff\<close>\<close>

lemma inc_bound_coeffs: "m_coeffs (inc_bound i st) = m_coeffs st"
  by (simp add: inc_bound_def Let_def)

lemma inc_bound_overflow_mono: "m_overflow st \<Longrightarrow> m_overflow (inc_bound i st)"
  by (simp add: inc_bound_def Let_def)

lemma inc_coeff_overflow:
  assumes "unclipped l offset st > INT_MAX \<or> unclipped l offset st < INT_MIN"
  shows "m_overflow (inc_coeff l offset st)"
    and "m_coeffs (inc_coeff l offset st) (var l) = unclipped l offset st"
  using assms by (simp_all add: inc_coeff_def unclipped_def Let_def)

text \<open>
  Without overflow, \<^verbatim>\<open>inc_coeff\<close> is the final clipping applied to a state \<open>st3\<close> that
  holds the unclipped sum and the adjusted bound.
\<close>

lemma inc_coeff_in_range:
  assumes "INT_MIN \<le> unclipped l offset st" "unclipped l offset st \<le> INT_MAX"
  obtains st3 where
    "m_coeffs st3 (var l) = unclipped l offset st"
    "inc_coeff l offset st =
       (if unclipped l offset st > uint (m_bound st3)
        then st3\<lparr> m_coeffs := (m_coeffs st3)(var l := uint (m_bound st3)) \<rparr>
        else if unclipped l offset st < 0 \<and> - unclipped l offset st > uint (m_bound st3)
        then st3\<lparr> m_coeffs := (m_coeffs st3)(var l := uint (m_bound st3)) \<rparr>
        else st3)"
proof -
  define c0 where "c0 = m_coeffs st (var l)"
  define inc where "inc = (if sign l then - uint offset else uint offset)"
  define st2 where
    "st2 = (if c0 = 0 then st\<lparr> m_active_vars := m_active_vars st @ [var l] \<rparr> else st)
             \<lparr> m_coeffs := (m_coeffs st)(var l := inc + c0) \<rparr>"
  define st3 where
    "st3 = (if c0 > 0 \<and> inc < 0 then inc_bound (max 0 (inc + c0) - c0) st2
            else if c0 < 0 \<and> inc > 0 then inc_bound (c0 - min 0 (inc + c0)) st2
            else st2)"
  have u: "unclipped l offset st = inc + c0"
    by (simp add: unclipped_def inc_def c0_def)
  have a: "m_coeffs st3 (var l) = unclipped l offset st"
    by (simp add: st3_def inc_bound_coeffs st2_def u)
  have nov: "\<not> (inc + c0 > INT_MAX \<or> inc + c0 < INT_MIN)"
    using assms u by simp
  have b: "inc_coeff l offset st =
       (if unclipped l offset st > uint (m_bound st3)
        then st3\<lparr> m_coeffs := (m_coeffs st3)(var l := uint (m_bound st3)) \<rparr>
        else if unclipped l offset st < 0 \<and> - unclipped l offset st > uint (m_bound st3)
        then st3\<lparr> m_coeffs := (m_coeffs st3)(var l := uint (m_bound st3)) \<rparr>
        else st3)"
    unfolding inc_coeff_def Let_def u
    unfolding c0_def [symmetric] inc_def [symmetric]
    using nov
    by (cases "c0 = 0"; cases "c0 > 0 \<and> inc < 0"; cases "c0 < 0 \<and> inc > 0")
       (simp_all add: st3_def st2_def split del: if_split cong: if_cong)
  show ?thesis
    using that a b by blast
qed

text \<open>
  C4 (as stated, refuted). The claim says that every call leaves the stored coefficient
  at most the bound in absolute value. When the sum leaves the \<^verbatim>\<open>int\<close> range the
  function returns right after latching the flag, and the stored coefficient is the
  unclipped sum: here \<open>2\<^sup>3\<^sup>1\<close> under the bound 5.
\<close>

theorem inc_coeff_every_call_counterexample:
  "\<not> (\<bar>m_coeffs (inc_coeff (pos 0) 2147483648 bound5) 0\<bar>
        \<le> uint (m_bound (inc_coeff (pos 0) 2147483648 bound5)))"
  by (simp add: inc_coeff_def Let_def bound5_def new_ba_solver_def pos_def INT_MAX_def INT_MIN_def)

text \<open>
  C4 (amended). A call of \<^verbatim>\<open>inc_coeff\<close> whose unclipped sum lies outside the \<^verbatim>\<open>int\<close>
  range latches the overflow flag and stores the unclipped sum. Every other call leaves
  the stored coefficient at most the current bound in absolute value: a sum above the
  bound is stored as \<open>+bound\<close>, a sum within \<open>\<plusminus>bound\<close> is stored as it is. (The sign
  that the code stores for a negative sum below \<open>-bound\<close> is not part of this statement;
  see \<open>inc_coeff_negative_clip\<close>.)
\<close>

theorem inc_coeff_clip:
  "(unclipped l offset st > INT_MAX \<or> unclipped l offset st < INT_MIN \<longrightarrow>
      m_overflow (inc_coeff l offset st) \<and>
      m_coeffs (inc_coeff l offset st) (var l) = unclipped l offset st) \<and>
   (INT_MIN \<le> unclipped l offset st \<and> unclipped l offset st \<le> INT_MAX \<longrightarrow>
      \<bar>m_coeffs (inc_coeff l offset st) (var l)\<bar> \<le> uint (m_bound (inc_coeff l offset st)) \<and>
      (unclipped l offset st > uint (m_bound (inc_coeff l offset st)) \<longrightarrow>
         m_coeffs (inc_coeff l offset st) (var l) = uint (m_bound (inc_coeff l offset st))) \<and>
      (\<bar>unclipped l offset st\<bar> \<le> uint (m_bound (inc_coeff l offset st)) \<longrightarrow>
         m_coeffs (inc_coeff l offset st) (var l) = unclipped l offset st))"
proof (intro conjI impI)
  assume "unclipped l offset st > INT_MAX \<or> unclipped l offset st < INT_MIN"
  then show "m_overflow (inc_coeff l offset st)"
    and "m_coeffs (inc_coeff l offset st) (var l) = unclipped l offset st"
    by (rule inc_coeff_overflow)+
next
  assume r: "INT_MIN \<le> unclipped l offset st \<and> unclipped l offset st \<le> INT_MAX"
  then obtain st3 where
    a: "m_coeffs st3 (var l) = unclipped l offset st" and
    b: "inc_coeff l offset st =
       (if unclipped l offset st > uint (m_bound st3)
        then st3\<lparr> m_coeffs := (m_coeffs st3)(var l := uint (m_bound st3)) \<rparr>
        else if unclipped l offset st < 0 \<and> - unclipped l offset st > uint (m_bound st3)
        then st3\<lparr> m_coeffs := (m_coeffs st3)(var l := uint (m_bound st3)) \<rparr>
        else st3)"
    using inc_coeff_in_range [of l offset st] by blast
  have bd: "m_bound (inc_coeff l offset st) = m_bound st3"
    by (simp add: b)
  show "\<bar>m_coeffs (inc_coeff l offset st) (var l)\<bar> \<le> uint (m_bound (inc_coeff l offset st))"
    unfolding bd by (auto simp: b a)
  show "unclipped l offset st > uint (m_bound (inc_coeff l offset st)) \<Longrightarrow>
         m_coeffs (inc_coeff l offset st) (var l) = uint (m_bound (inc_coeff l offset st))"
    unfolding bd by (simp add: b)
  show "\<bar>unclipped l offset st\<bar> \<le> uint (m_bound (inc_coeff l offset st)) \<Longrightarrow>
         m_coeffs (inc_coeff l offset st) (var l) = unclipped l offset st"
    unfolding bd by (auto simp: b a)
qed

lemmas inc_coeff_eval =
  inc_coeff_def inc_bound_def unclipped_def Let_def bound5_def new_ba_solver_def pos_def neg_def
  INT_MAX_def INT_MIN_def UINT_MAX_def

theorem inc_coeff_clip_witness:
  "unclipped (pos 0) 2147483648 bound5 > INT_MAX \<and>
   m_overflow (inc_coeff (pos 0) 2147483648 bound5) \<and>
   m_coeffs (inc_coeff (pos 0) 2147483648 bound5) 0 = 2147483648 \<and>
   INT_MIN \<le> unclipped (pos 0) 7 bound5 \<and> unclipped (pos 0) 7 bound5 \<le> INT_MAX \<and>
   unclipped (pos 0) 7 bound5 > uint (m_bound (inc_coeff (pos 0) 7 bound5)) \<and>
   m_coeffs (inc_coeff (pos 0) 7 bound5) 0 = 5 \<and>
   \<bar>unclipped (neg (pos 0)) 3 bound5\<bar> \<le> uint (m_bound (inc_coeff (neg (pos 0)) 3 bound5)) \<and>
   m_coeffs (inc_coeff (neg (pos 0)) 3 bound5) 0 = - 3"
proof -
  have h1: "unclipped (pos 0) 2147483648 bound5 > INT_MAX"
    by (simp add: inc_coeff_eval)
  have h2: "INT_MIN \<le> unclipped (pos 0) 7 bound5 \<and> unclipped (pos 0) 7 bound5 \<le> INT_MAX"
    by (simp add: inc_coeff_eval)
  have h3: "unclipped (pos 0) 7 bound5 > uint (m_bound (inc_coeff (pos 0) 7 bound5))"
    by (simp add: inc_coeff_eval)
  have h4: "INT_MIN \<le> unclipped (neg (pos 0)) 3 bound5 \<and> unclipped (neg (pos 0)) 3 bound5 \<le> INT_MAX"
    by (simp add: inc_coeff_eval)
  have h5: "\<bar>unclipped (neg (pos 0)) 3 bound5\<bar> \<le> uint (m_bound (inc_coeff (neg (pos 0)) 3 bound5))"
    by (simp add: inc_coeff_eval)
  have v: "var (pos 0) = 0" "var (neg (pos 0)) = 0"
    "uint (m_bound (inc_coeff (pos 0) 7 bound5)) = 5"
    "unclipped (pos 0) 2147483648 bound5 = 2147483648"
    "unclipped (neg (pos 0)) 3 bound5 = - 3"
    by (simp_all add: inc_coeff_eval)
  show ?thesis
    using inc_coeff_clip [of "pos 0" 2147483648 bound5] inc_coeff_clip [of "pos 0" 7 bound5]
      inc_coeff_clip [of "neg (pos 0)" 3 bound5] h1 h2 h3 h4 h5
    by (simp add: v)
qed

text \<open>
  The negative clipping branch stores \<^verbatim>\<open>m_bound\<close>, not its negation: adding \<open>\<not>x\<^sub>0\<close> with
  offset 9 under the bound 5 leaves the coefficient \<open>+5\<close>, that is, the literal \<open>x\<^sub>0\<close>
  instead of \<open>\<not>x\<^sub>0\<close>. The sibling clipping in \<^verbatim>\<open>resolve_conflict\<close> and in \<^verbatim>\<open>cut\<close>
  stores \<open>-bound\<close> for a negative coefficient.
\<close>

lemma inc_coeff_negative_clip:
  "unclipped (neg (pos 0)) 9 bound5 = - 9 \<and>
   m_coeffs (inc_coeff (neg (pos 0)) 9 bound5) 0 = 5 \<and>
   \<not> m_overflow (inc_coeff (neg (pos 0)) 9 bound5)"
  by (simp add: inc_coeff_eval)

section \<open>\<^verbatim>\<open>cut\<close>: clipping, gcd and division\<close>

lemma uint_word_of_int_u32:
  "0 \<le> n \<Longrightarrow> n \<le> UINT_MAX \<Longrightarrow> uint (word_of_int n :: u32) = n"
  by (simp add: UINT_MAX_def uint_word_of_int take_bit_int_eq_self)

lemma get_abs_coeff_frame:
  "snd (get_abs_coeff v st) = st\<lparr> m_overflow := m_overflow (snd (get_abs_coeff v st)) \<rparr>"
  by (simp add: get_abs_coeff_def Let_def)

lemma get_abs_coeff_fields:
  "m_coeffs (snd (get_abs_coeff v st)) = m_coeffs st"
  "m_bound (snd (get_abs_coeff v st)) = m_bound st"
  "m_active_vars (snd (get_abs_coeff v st)) = m_active_vars st"
  by (simp_all add: get_abs_coeff_def Let_def)

lemma get_abs_coeff_overflow_mono:
  "m_overflow st \<Longrightarrow> m_overflow (snd (get_abs_coeff v st))"
  by (simp add: get_abs_coeff_def Let_def)

lemma get_abs_coeff_uint:
  "uint (fst (get_abs_coeff v st)) =
     (if m_coeffs st v < INT_MIN + 1 \<or> m_coeffs st v > UINT_MAX then UINT_MAX else \<bar>m_coeffs st v\<bar>)"
  by (auto simp: get_abs_coeff_def get_coeff_def Let_def uint_word_of_int_u32 INT_MIN_def UINT_MAX_def
      uint_word_of_int take_bit_int_eq_self)

lemma get_abs_coeff_one:
  "(fst (get_abs_coeff v st) = 1) = (\<bar>m_coeffs st v\<bar> = 1)"
proof -
  have "(fst (get_abs_coeff v st) = 1) = (uint (fst (get_abs_coeff v st)) = 1)"
    by (metis uint_1 word_uint_eq_iff)
  then show ?thesis
    by (auto simp: get_abs_coeff_uint INT_MIN_def UINT_MAX_def)
qed

lemma get_abs_coeff_zero:
  "(fst (get_abs_coeff v st) = 0) = (m_coeffs st v = 0)"
proof -
  have "(fst (get_abs_coeff v st) = 0) = (uint (fst (get_abs_coeff v st)) = 0)"
    by (simp add: uint_0_iff)
  then show ?thesis
    by (auto simp: get_abs_coeff_uint INT_MIN_def UINT_MAX_def)
qed

lemma cut_has_unit_frame:
  "snd (cut_has_unit vs st) = st\<lparr> m_overflow := m_overflow (snd (cut_has_unit vs st)) \<rparr>"
proof (induction vs arbitrary: st)
  case Nil
  then show ?case by simp
next
  case (Cons v vs)
  show ?case
  proof (cases "1 = fst (get_abs_coeff v st)")
    case True
    then show ?thesis
      using get_abs_coeff_frame [of v st] by (simp add: case_prod_unfold)
  next
    case False
    then show ?thesis
      using Cons.IH [of "snd (get_abs_coeff v st)"] get_abs_coeff_frame [of v st]
      by (simp add: case_prod_unfold) (metis (no_types, lifting) ba_solver.surjective ba_solver.update_convs(12))
  qed
qed

lemma cut_has_unit_iff:
  "fst (cut_has_unit vs st) = (\<exists>v \<in> set vs. \<bar>m_coeffs st v\<bar> = 1)"
proof (induction vs arbitrary: st)
  case Nil
  then show ?case by simp
next
  case (Cons v vs)
  show ?case
    using Cons.IH [of "snd (get_abs_coeff v st)"]
    by (auto simp: case_prod_unfold get_abs_coeff_one get_abs_coeff_fields)
qed


lemma min_sum_bound:
  fixes f :: "'a \<Rightarrow> int"
  assumes "finite S" "\<And>v. v \<in> S \<Longrightarrow> 0 \<le> f v" "0 \<le> b"
  shows "(b \<le> sum f S) = (b \<le> sum (\<lambda>v. min (f v) b) S)"
proof (cases "\<exists>v \<in> S. b \<le> f v")
  case True
  then obtain v where v: "v \<in> S" "b \<le> f v" by blast
  have "min (f v) b \<le> sum (\<lambda>v. min (f v) b) S"
    using assms v by (intro member_le_sum) auto
  moreover have "f v \<le> sum f S"
    using assms v by (intro member_le_sum) auto
  ultimately show ?thesis using v by auto
next
  case False
  then have "sum (\<lambda>v. min (f v) b) S = sum f S"
    by (intro sum.cong) auto
  then show ?thesis by simp
qed

lemma term_of_nonneg: "0 \<le> term_of cf x v"
  by (simp add: term_of_def)

lemma term_of_clip_int:
  "0 \<le> B \<Longrightarrow>
   min (term_of (\<lambda>w. if B < \<bar>cf w\<bar> then (if cf w > 0 then B else - B) else cf w) x v) B =
   min (term_of cf x v) B"
  by (auto simp: term_of_def min_def)

lemma term_of_clip:
  "min (term_of (\<lambda>w. clip_coeff b (cf w)) x v) (uint b) = min (term_of cf x v) (uint b)"
  unfolding clip_coeff_def by (rule term_of_clip_int) simp

lemma term_of_partly_clipped:
  assumes "cf' v = cf v \<or> cf' v = clip_coeff b (cf v)"
  shows "min (term_of cf' x v) (uint b) = min (term_of cf x v) (uint b)"
  using assms term_of_clip [of b cf x v] by (auto simp: term_of_def)

lemma clipping_keeps_models:
  assumes "\<And>v. v \<in> set vs \<Longrightarrow> cf' v = cf v \<or> cf' v = clip_coeff b (cf v)"
  shows "(uint b \<le> sum (term_of cf' x) (set vs)) = (uint b \<le> sum (term_of cf x) (set vs))"
proof -
  have "(uint b \<le> sum (term_of cf' x) (set vs)) =
        (uint b \<le> sum (\<lambda>v. min (term_of cf' x v) (uint b)) (set vs))"
    by (rule min_sum_bound) (simp_all add: term_of_nonneg)
  also have "sum (\<lambda>v. min (term_of cf' x v) (uint b)) (set vs) =
             sum (\<lambda>v. min (term_of cf x v) (uint b)) (set vs)"
    by (intro sum.cong refl term_of_partly_clipped assms)
  also have "(uint b \<le> sum (\<lambda>v. min (term_of cf x v) (uint b)) (set vs)) =
             (uint b \<le> sum (term_of cf x) (set vs))"
    by (rule min_sum_bound [symmetric]) (simp_all add: term_of_nonneg)
  finally show ?thesis .
qed

lemma uint_u_gcd: "uint (u_gcd a b) = gcd (uint a) (uint b)"
proof -
  have le: "gcd (unat a) (unat b) < 2 ^ 32"
  proof (cases "unat a = 0")
    case True
    then show ?thesis using unsigned_less [of b, where ?'a = nat] by simp
  next
    case False
    then have "gcd (unat a) (unat b) \<le> unat a"
      by (intro gcd_le1_nat) simp
    then show ?thesis using unsigned_less [of a, where ?'a = nat] by simp
  qed
  have n: "unat (u_gcd a b) = gcd (unat a) (unat b)"
    unfolding u_gcd_def using le by (simp add: unat_of_nat)
  show ?thesis
    using n by (metis gcd_int_int_eq uint_nat)
qed

lemma clip_coeff_idem: "clip_coeff b (clip_coeff b c) = clip_coeff b c"
  by (auto simp: clip_coeff_def)

lemma clip_coeff_abs_le: "\<bar>c\<bar> \<le> uint b \<Longrightarrow> clip_coeff b c = c"
  by (simp add: clip_coeff_def)

lemma clip_coeff_abs: "\<bar>clip_coeff b c\<bar> \<le> uint b \<or> clip_coeff b c = c"
  by (auto simp: clip_coeff_def)

text \<open>One step of the gcd loop on a nonzero coefficient.\<close>

lemma cut_gcd_step:
  assumes B: "uint (m_bound st) < 2 ^ 31"
    and nz: "m_coeffs st v \<noteq> 0"
  defines "st1 \<equiv> snd (get_abs_coeff v st)"
    and "coeff \<equiv> fst (get_abs_coeff v st)"
  shows "(m_bound st1 < coeff) = (uint (m_bound st) < \<bar>m_coeffs st v\<bar>)"
    and "uint (if m_bound st1 < coeff then m_bound st1 else coeff) =
         \<bar>clip_coeff (m_bound st) (m_coeffs st v)\<bar>"
    and "m_coeffs (if m_bound st1 < coeff
           then st1\<lparr> m_coeffs := (m_coeffs st1)
                  (v := (if get_coeff st1 v > 0 then uint (m_bound st1) else - uint (m_bound st1))) \<rparr>
           else st1) = (m_coeffs st)(v := clip_coeff (m_bound st) (m_coeffs st v))"
proof -
  have b1: "m_bound st1 = m_bound st" and c1: "m_coeffs st1 = m_coeffs st"
    by (simp_all add: st1_def get_abs_coeff_fields)
  have u: "uint coeff =
     (if m_coeffs st v < INT_MIN + 1 \<or> m_coeffs st v > UINT_MAX then UINT_MAX else \<bar>m_coeffs st v\<bar>)"
    by (simp add: coeff_def get_abs_coeff_uint)
  show lt: "(m_bound st1 < coeff) = (uint (m_bound st) < \<bar>m_coeffs st v\<bar>)"
    using B by (auto simp: word_less_alt b1 u INT_MIN_def UINT_MAX_def)
  show "uint (if m_bound st1 < coeff then m_bound st1 else coeff) =
         \<bar>clip_coeff (m_bound st) (m_coeffs st v)\<bar>"
    using B lt by (auto simp: b1 u clip_coeff_def INT_MIN_def UINT_MAX_def)
  show "m_coeffs (if m_bound st1 < coeff
           then st1\<lparr> m_coeffs := (m_coeffs st1)
                  (v := (if get_coeff st1 v > 0 then uint (m_bound st1) else - uint (m_bound st1))) \<rparr>
           else st1) = (m_coeffs st)(v := clip_coeff (m_bound st) (m_coeffs st v))"
    unfolding lt by (auto simp: b1 c1 clip_coeff_def get_coeff_def)
qed

lemma cut_gcd_props:
  assumes B: "uint (m_bound st) < 2 ^ 31"
  shows "m_bound (snd (cut_gcd vs g st)) = m_bound st \<and>
         m_active_vars (snd (cut_gcd vs g st)) = m_active_vars st \<and>
         (\<forall>v. m_coeffs (snd (cut_gcd vs g st)) v = m_coeffs st v \<or>
              m_coeffs (snd (cut_gcd vs g st)) v = clip_coeff (m_bound st) (m_coeffs st v)) \<and>
         uint (fst (cut_gcd vs g st)) =
           gcd (uint g) (Gcd ((\<lambda>v. clip_coeff (m_bound st) (m_coeffs st v)) ` set vs)) \<and>
         (fst (cut_gcd vs g st) \<noteq> 1 \<longrightarrow>
            (\<forall>v \<in> set vs. m_coeffs (snd (cut_gcd vs g st)) v = clip_coeff (m_bound st) (m_coeffs st v)))"
  using B
proof (induction vs arbitrary: g st)
  case Nil
  then show ?case by simp
next
  case (Cons v vs)
  let ?b = "m_bound st"
  let ?cl = "\<lambda>st v. clip_coeff (m_bound st) (m_coeffs st v)"
  define st1 where "st1 = snd (get_abs_coeff v st)"
  define coeff where "coeff = fst (get_abs_coeff v st)"
  have gac: "get_abs_coeff v st = (coeff, st1)"
    by (simp add: st1_def coeff_def)
  have b1: "m_bound st1 = m_bound st" and c1: "m_coeffs st1 = m_coeffs st"
    and a1: "m_active_vars st1 = m_active_vars st"
    by (simp_all add: st1_def get_abs_coeff_fields)
  show ?case
  proof (cases "g = 1")
    case True
    then show ?thesis by simp
  next
    case g: False
    show ?thesis
    proof (cases "coeff = 0")
      case True
      then have z: "m_coeffs st v = 0"
        using get_abs_coeff_zero [of v st] by (simp add: coeff_def)
      have eq: "cut_gcd (v # vs) g st = cut_gcd vs g st1"
        using g True by (simp add: gac)
      have B1: "uint (m_bound st1) < 2 ^ 31" using Cons.prems b1 by simp
      note IH = Cons.IH [OF B1, of g]
      have cl0: "clip_coeff ?b 0 = 0" by (simp add: clip_coeff_def)
      let ?r = "cut_gcd vs g st1"
      from IH have i1: "m_bound (snd ?r) = m_bound st1 \<and> m_active_vars (snd ?r) = m_active_vars st1"
        and i2: "\<And>w. m_coeffs (snd ?r) w = m_coeffs st1 w \<or> m_coeffs (snd ?r) w = ?cl st1 w"
        and i3: "uint (fst ?r) = gcd (uint g) (Gcd ((\<lambda>w. ?cl st1 w) ` set vs))"
        and i4: "fst ?r \<noteq> 1 \<Longrightarrow> (\<forall>w \<in> set vs. m_coeffs (snd ?r) w = ?cl st1 w)"
        by blast+
      have r1: "m_bound (snd ?r) = m_bound st \<and> m_active_vars (snd ?r) = m_active_vars st"
        using i1 by (simp add: b1 a1)
      have r2: "m_coeffs (snd ?r) w = m_coeffs st w \<or> m_coeffs (snd ?r) w = ?cl st w" for w
        using i2 [of w] by (simp add: b1 c1)
      have r3: "uint (fst ?r) = gcd (uint g) (Gcd ((\<lambda>w. ?cl st w) ` set (v # vs)))"
        using i3 by (simp add: b1 c1 z cl0)
      have r4: "\<forall>w \<in> set (v # vs). m_coeffs (snd ?r) w = ?cl st w" if "fst ?r \<noteq> 1"
        using i4 [OF that] i2 [of v] by (auto simp: b1 c1 z cl0)
      show ?thesis
        unfolding eq using r1 r2 r3 r4 by blast
    next
      case nz0: False
      then have nz: "m_coeffs st v \<noteq> 0"
        using get_abs_coeff_zero [of v st] by (simp add: coeff_def)
      define st2 where "st2 = (if m_bound st1 < coeff
           then st1\<lparr> m_coeffs := (m_coeffs st1)
                  (v := (if get_coeff st1 v > 0 then uint (m_bound st1) else - uint (m_bound st1))) \<rparr>
           else st1)"
      define coeff' where "coeff' = (if m_bound st1 < coeff then m_bound st1 else coeff)"
      define g1 where "g1 = (if g = 0 then coeff' else u_gcd g coeff')"
      have eq: "cut_gcd (v # vs) g st = cut_gcd vs g1 st2"
        using g nz0 by (simp add: gac st2_def coeff'_def g1_def Let_def)
      have c2: "m_coeffs st2 = (m_coeffs st)(v := ?cl st v)"
        unfolding st2_def st1_def coeff_def by (rule cut_gcd_step(3) [OF Cons.prems nz])
      have u': "uint coeff' = \<bar>?cl st v\<bar>"
        unfolding coeff'_def st1_def coeff_def by (rule cut_gcd_step(2) [OF Cons.prems nz])
      have b2: "m_bound st2 = m_bound st"
        by (simp add: st2_def b1)
      have a2: "m_active_vars st2 = m_active_vars st"
        by (simp add: st2_def a1)
      have ug1: "uint g1 = gcd (uint g) (?cl st v)"
        by (simp add: g1_def uint_u_gcd u' uint_0_iff)
      have B2: "uint (m_bound st2) < 2 ^ 31" using Cons.prems b2 by simp
      note IH = Cons.IH [OF B2, of g1]
      have cl2: "?cl st2 w = ?cl st w" for w
        by (simp add: b2 c2 clip_coeff_idem)
      have step: "m_coeffs st2 w = m_coeffs st w \<or> m_coeffs st2 w = ?cl st w" for w
        by (simp add: c2)
      let ?r = "cut_gcd vs g1 st2"
      from IH have i1: "m_bound (snd ?r) = m_bound st2 \<and> m_active_vars (snd ?r) = m_active_vars st2"
        and i2: "\<And>w. m_coeffs (snd ?r) w = m_coeffs st2 w \<or> m_coeffs (snd ?r) w = ?cl st2 w"
        and i3: "uint (fst ?r) = gcd (uint g1) (Gcd ((\<lambda>w. ?cl st2 w) ` set vs))"
        and i4: "fst ?r \<noteq> 1 \<Longrightarrow> (\<forall>w \<in> set vs. m_coeffs (snd ?r) w = ?cl st2 w)"
        by blast+
      have r1: "m_bound (snd ?r) = m_bound st \<and> m_active_vars (snd ?r) = m_active_vars st"
        using i1 by (simp add: b2 a2)
      have r2: "m_coeffs (snd ?r) w = m_coeffs st w \<or> m_coeffs (snd ?r) w = ?cl st w" for w
      proof -
        from i2 [of w] have "m_coeffs (snd ?r) w = m_coeffs st2 w \<or> m_coeffs (snd ?r) w = ?cl st w"
          unfolding cl2 .
        with step [of w] show ?thesis by metis
      qed
      have r3: "uint (fst ?r) = gcd (uint g) (Gcd ((\<lambda>w. ?cl st w) ` set (v # vs)))"
        using i3 by (simp add: cl2 ug1 gcd.assoc)
      have r4: "\<forall>w \<in> set (v # vs). m_coeffs (snd ?r) w = ?cl st w" if "fst ?r \<noteq> 1"
      proof
        fix w assume "w \<in> set (v # vs)"
        then consider "w \<in> set vs" | "w = v" by auto
        then show "m_coeffs (snd ?r) w = ?cl st w"
        proof cases
          case 1
          then have "m_coeffs (snd ?r) w = ?cl st2 w" using i4 [OF that] by blast
          then show ?thesis unfolding cl2 .
        next
          case 2
          have "m_coeffs st2 v = ?cl st v" by (simp add: c2)
          moreover from i2 [of v] have "m_coeffs (snd ?r) v = m_coeffs st2 v \<or> m_coeffs (snd ?r) v = ?cl st v"
            unfolding cl2 .
          ultimately show ?thesis using 2 by metis
        qed
      qed
      show ?thesis
        unfolding eq using r1 r2 r3 r4 by blast
    qed
  qed
qed

lemma normalize_loop_set:
  "set (normalize_loop cf seen vs) = {v \<in> set vs. v \<notin> set seen \<and> cf v \<noteq> 0}"
  by (induction vs arbitrary: seen) auto

lemma normalize_loop_distinct: "distinct (normalize_loop cf seen vs)"
  by (induction vs arbitrary: seen) (auto simp: normalize_loop_set)

lemma divide_coeffs_distinct:
  "distinct vs \<Longrightarrow>
   divide_coeffs g vs cf v = (if v \<in> set vs then cdiv (cf v) (sint g) else cf v)"
  unfolding divide_coeffs_def
  by (induction vs arbitrary: cf) auto

lemma cdiv_exact:
  assumes "0 < g" "g dvd a"
  shows "cdiv a g = a div g"
proof -
  obtain k where a: "a = g * k" using assms by (auto simp: dvd_def)
  have "\<bar>a\<bar> div \<bar>g\<bar> = \<bar>k\<bar>" using assms by (simp add: a abs_mult)
  moreover have "sgn a = sgn k" using assms by (simp add: a sgn_mult)
  ultimately show ?thesis using assms by (simp add: cdiv_def a mult_sgn_abs)
qed

lemma term_of_div:
  assumes "0 < g" "g dvd cf v" "cf' v = cf v div g"
  shows "g * term_of cf' x v = term_of cf x v"
proof -
  obtain k where a: "cf v = g * k" using assms by (auto simp: dvd_def)
  have k: "cf' v = k" using assms by (simp add: a)
  show ?thesis
    using assms(1) by (auto simp: term_of_def a k abs_mult zero_less_mult_iff mult_less_0_iff)
qed

lemma ceil_div_le:
  fixes b g l :: int
  assumes g: "0 < g"
  shows "((b + g - 1) div g \<le> l) = (b \<le> g * l)"
proof -
  define q where "q = (b + g - 1) div g"
  define r where "r = (b + g - 1) mod g"
  have eq: "b + g - 1 = g * q + r"
    by (simp add: q_def r_def)
  have r: "0 \<le> r" "r < g"
    using g by (simp_all add: r_def)
  show ?thesis
  proof
    assume "(b + g - 1) div g \<le> l"
    then have "g * q \<le> g * l"
      using g by (simp add: q_def mult_left_mono)
    then show "b \<le> g * l" using eq r by linarith
  next
    assume le: "b \<le> g * l"
    show "(b + g - 1) div g \<le> l"
    proof (rule ccontr)
      assume "\<not> (b + g - 1) div g \<le> l"
      then have "l + 1 \<le> q" by (simp add: q_def)
      then have "g * (l + 1) \<le> g * q"
        using g by (simp add: mult_left_mono)
      then show False using eq r le by (simp add: algebra_simps)
    qed
  qed
qed

lemma uint_ceil_div:
  fixes b g :: u32
  assumes "1 \<le> uint g" "uint b + uint g - 1 < 2 ^ 32"
  shows "uint ((b + g - 1) div g) = (uint b + uint g - 1) div uint g"
proof -
  have g1: "uint (g - 1) = uint g - 1"
    using assms(1) uint_sub_lem [of 1 g] by simp
  have "uint (b + (g - 1)) = uint b + uint (g - 1)"
    using assms(2) uint_add_lem [of b "g - 1"] by (simp add: g1)
  moreover have e: "b + g - 1 = b + (g - 1)" by simp
  ultimately have "uint (b + g - 1) = uint b + uint g - 1"
    unfolding e using g1 by simp
  then show ?thesis
    by (simp add: uint_div)
qed

lemma cut_unit:
  assumes "\<exists>v \<in> set (m_active_vars st). \<bar>m_coeffs st v\<bar> = 1"
  shows "cut st = st\<lparr> m_overflow := m_overflow (cut st) \<rparr>"
proof -
  have "fst (cut_has_unit (m_active_vars st) st)"
    using assms by (simp add: cut_has_unit_iff)
  then have "cut st = snd (cut_has_unit (m_active_vars st) st)"
    by (simp add: cut_def case_prod_unfold)
  then show ?thesis
    using cut_has_unit_frame [of "m_active_vars st" st] by simp
qed

lemma Gcd_clip_bound:
  assumes "2 \<le> Gcd ((\<lambda>v. clip_coeff b (cf v)) ` S)"
  shows "Gcd ((\<lambda>v. clip_coeff b (cf v)) ` S) \<le> uint b"
proof -
  let ?G = "Gcd ((\<lambda>v. clip_coeff b (cf v)) ` S)"
  have "\<exists>v \<in> S. clip_coeff b (cf v) \<noteq> 0"
  proof (rule ccontr)
    assume "\<not> (\<exists>v \<in> S. clip_coeff b (cf v) \<noteq> 0)"
    then have "(\<lambda>v. clip_coeff b (cf v)) ` S \<subseteq> {0}" by auto
    then have "?G = 0" by (simp add: Gcd_0_iff)
    with assms show False by simp
  qed
  then obtain v where v: "v \<in> S" "clip_coeff b (cf v) \<noteq> 0" by blast
  have "?G dvd clip_coeff b (cf v)" using v by (intro Gcd_dvd) simp
  then have "?G \<le> \<bar>clip_coeff b (cf v)\<bar>"
    using v by (metis abs_ge_zero dvd_abs_iff zdvd_imp_le zero_less_abs_iff)
  moreover have "\<bar>clip_coeff b (cf v)\<bar> \<le> uint b"
    by (auto simp: clip_coeff_def)
  ultimately show ?thesis by simp
qed

text \<open>What \<^verbatim>\<open>cut\<close> computes when no coefficient is a unit and the bound is below \<open>2\<^sup>3\<^sup>1\<close>.\<close>

lemma cut_result:
  assumes B: "uint (m_bound st) < 2 ^ 31"
    and nu: "\<not> (\<exists>v \<in> set (m_active_vars st). \<bar>m_coeffs st v\<bar> = 1)"
  shows "2 \<le> clipped_gcd st \<Longrightarrow> v \<in> set (m_active_vars st) \<Longrightarrow>
           m_coeffs (cut st) v = clip_coeff (m_bound st) (m_coeffs st v) div clipped_gcd st"
    and "2 \<le> clipped_gcd st \<Longrightarrow>
           uint (m_bound (cut st)) = (uint (m_bound st) + clipped_gcd st - 1) div clipped_gcd st"
    and "2 \<le> clipped_gcd st \<Longrightarrow>
           set (m_active_vars (cut st)) =
             {v \<in> set (m_active_vars st). clip_coeff (m_bound st) (m_coeffs st v) \<noteq> 0}"
    and "\<not> 2 \<le> clipped_gcd st \<Longrightarrow>
           m_bound (cut st) = m_bound st \<and> m_active_vars (cut st) = m_active_vars st \<and>
           (\<forall>v. m_coeffs (cut st) v = m_coeffs st v \<or>
                m_coeffs (cut st) v = clip_coeff (m_bound st) (m_coeffs st v))"
proof -
  define st1 where "st1 = snd (cut_has_unit (m_active_vars st) st)"
  have f1: "st1 = st\<lparr> m_overflow := m_overflow st1 \<rparr>"
    unfolding st1_def by (rule cut_has_unit_frame)
  have s1: "m_bound st1 = m_bound st" "m_coeffs st1 = m_coeffs st" "m_active_vars st1 = m_active_vars st"
    by (subst f1, simp)+
  define g where "g = fst (cut_gcd (m_active_vars st1) 0 st1)"
  define st2 where "st2 = snd (cut_gcd (m_active_vars st1) 0 st1)"
  have nf: "\<not> fst (cut_has_unit (m_active_vars st) st)"
    using nu by (simp add: cut_has_unit_iff)
  have cut_eq: "cut st =
     (if 2 \<le> g then
        (let st3 = normalize_active_coeffs st2
         in st3\<lparr> m_coeffs := divide_coeffs g (m_active_vars st3) (m_coeffs st3),
                  m_bound := (m_bound st3 + g - 1) div g,
                  m_stats := (m_stats st3)\<lparr> m_num_cut := m_num_cut (m_stats st3) + 1 \<rparr> \<rparr>)
      else st2)"
    using nf by (simp add: cut_def case_prod_unfold st1_def g_def st2_def)
  have B1: "uint (m_bound st1) < 2 ^ 31" using B s1 by simp
  note P = cut_gcd_props [OF B1, of "m_active_vars st1" 0, folded g_def st2_def, unfolded s1]
  from P have p1: "m_bound st2 = m_bound st" "m_active_vars st2 = m_active_vars st"
    and p2: "\<And>v. m_coeffs st2 v = m_coeffs st v \<or> m_coeffs st2 v = clip_coeff (m_bound st) (m_coeffs st v)"
    and p3: "uint g = clipped_gcd st"
    and p4: "g \<noteq> 1 \<Longrightarrow> (\<forall>v \<in> set (m_active_vars st). m_coeffs st2 v = clip_coeff (m_bound st) (m_coeffs st v))"
    by (simp_all add: clipped_gcd_def)
  have g2: "(2 \<le> g) = (2 \<le> clipped_gcd st)"
    by (simp add: word_le_def p3)
  {
    assume G: "2 \<le> clipped_gcd st"
    then have gg: "2 \<le> g" by (simp add: g2)
    have "g \<noteq> 1" using G p3 by auto
    note c2 = p4 [OF this]
    have Gb: "clipped_gcd st \<le> uint (m_bound st)"
      unfolding clipped_gcd_def by (rule Gcd_clip_bound) (use G in \<open>simp add: clipped_gcd_def\<close>)
    have sg: "sint g = clipped_gcd st"
    proof -
      have "uint g < 2 ^ 31" using Gb B p3 by simp
      moreover have "- (2 ^ 31) \<le> uint g"
        using uint_ge_0 [of g] by (rule order_trans [rotated]) simp
      ultimately have "signed_take_bit 31 (uint g) = uint g"
        by (intro signed_take_bit_int_eq_self)
      then have "sint g = uint g"
        by (simp add: sint_uint)
      then show ?thesis
        using p3 by simp
    qed
    define vs3 where "vs3 = normalize_loop (m_coeffs st2) [] (m_active_vars st2)"
    have d3: "distinct vs3" by (simp add: vs3_def normalize_loop_distinct)
    have set3: "set vs3 = {v \<in> set (m_active_vars st). clip_coeff (m_bound st) (m_coeffs st v) \<noteq> 0}"
      using c2 by (auto simp: vs3_def normalize_loop_set p1)
    have ce: "m_coeffs (cut st) = divide_coeffs g vs3 (m_coeffs st2)"
      and be: "m_bound (cut st) = (m_bound st + g - 1) div g"
      and ae: "m_active_vars (cut st) = vs3"
      using gg by (simp_all add: cut_eq normalize_active_coeffs_def Let_def vs3_def p1)
    show "set (m_active_vars (cut st)) =
             {v \<in> set (m_active_vars st). clip_coeff (m_bound st) (m_coeffs st v) \<noteq> 0}"
      by (simp add: ae set3)
    show "uint (m_bound (cut st)) = (uint (m_bound st) + clipped_gcd st - 1) div clipped_gcd st"
      unfolding be using uint_ceil_div [of g "m_bound st"] G Gb B by (simp add: p3)
    show "m_coeffs (cut st) v = clip_coeff (m_bound st) (m_coeffs st v) div clipped_gcd st"
      if v: "v \<in> set (m_active_vars st)"
    proof (cases "v \<in> set vs3")
      case True
      have dv: "clipped_gcd st dvd clip_coeff (m_bound st) (m_coeffs st v)"
        unfolding clipped_gcd_def using v by (intro Gcd_dvd) simp
      have "m_coeffs (cut st) v = cdiv (m_coeffs st2 v) (sint g)"
        using True by (simp add: ce divide_coeffs_distinct [OF d3])
      also have "\<dots> = cdiv (clip_coeff (m_bound st) (m_coeffs st v)) (clipped_gcd st)"
        using c2 v by (simp add: sg)
      also have "\<dots> = clip_coeff (m_bound st) (m_coeffs st v) div clipped_gcd st"
        using G dv by (intro cdiv_exact) simp_all
      finally show ?thesis .
    next
      case False
      then have z: "clip_coeff (m_bound st) (m_coeffs st v) = 0"
        using v by (simp add: set3)
      have "m_coeffs (cut st) v = m_coeffs st2 v"
        using False by (simp add: ce divide_coeffs_distinct [OF d3])
      then show ?thesis using c2 v z by simp
    qed
  }
  {
    assume "\<not> 2 \<le> clipped_gcd st"
    then have "cut st = st2" by (simp add: cut_eq g2)
    then show "m_bound (cut st) = m_bound st \<and> m_active_vars (cut st) = m_active_vars st \<and>
           (\<forall>v. m_coeffs (cut st) v = m_coeffs st v \<or>
                m_coeffs (cut st) v = clip_coeff (m_bound st) (m_coeffs st v))"
      using p1 p2 by simp
  }
qed

lemma cut_keeps_models:
  assumes B: "uint (m_bound st) < 2 ^ 31"
  shows "model_of (cut st) x = model_of st x"
proof (cases "\<exists>v \<in> set (m_active_vars st). \<bar>m_coeffs st v\<bar> = 1")
  case True
  then have "cut st = st\<lparr> m_overflow := m_overflow (cut st) \<rparr>" by (rule cut_unit)
  then have "m_coeffs (cut st) = m_coeffs st" "m_bound (cut st) = m_bound st"
    "m_active_vars (cut st) = m_active_vars st"
    by (metis ba_solver.select_convs ba_solver.surjective ba_solver.update_convs(12))+
  then show ?thesis by (simp add: model_of_def lhs_def)
next
  case nu: False
  note R = cut_result [OF B nu]
  show ?thesis
  proof (cases "2 \<le> clipped_gcd st")
    case False
    from R(4) [OF False] have b: "m_bound (cut st) = m_bound st"
      and a: "m_active_vars (cut st) = m_active_vars st"
      and c: "\<And>v. m_coeffs (cut st) v = m_coeffs st v \<or>
                m_coeffs (cut st) v = clip_coeff (m_bound st) (m_coeffs st v)"
      by blast+
    show ?thesis
      unfolding model_of_def lhs_def b a
      by (rule clipping_keeps_models) (rule c)
  next
    case G: True
    let ?G = "clipped_gcd st"
    let ?S = "set (m_active_vars st)"
    let ?clipf = "\<lambda>w. clip_coeff (m_bound st) (m_coeffs st w)"
    have Gp: "0 < ?G" using G by simp
    have dv: "?G dvd ?clipf v" if "v \<in> ?S" for v
      unfolding clipped_gcd_def using that by (intro Gcd_dvd) simp
    have t: "?G * term_of (m_coeffs (cut st)) x v = term_of ?clipf x v" if "v \<in> ?S" for v
      using Gp dv [OF that] R(1) [OF G that]
      by (rule term_of_div [of ?G ?clipf v "m_coeffs (cut st)" x])
    have z: "term_of ?clipf x v = 0" if "v \<in> ?S - set (m_active_vars (cut st))" for v
      using that by (simp add: R(3) [OF G] term_of_def)
    have "?G * lhs (cut st) x = sum (\<lambda>v. ?G * term_of (m_coeffs (cut st)) x v) (set (m_active_vars (cut st)))"
      by (simp add: lhs_def sum_distrib_left)
    also have "\<dots> = sum (term_of ?clipf x) (set (m_active_vars (cut st)))"
      by (intro sum.cong refl t) (simp add: R(3) [OF G])
    also have "\<dots> = sum (term_of ?clipf x) ?S"
      by (rule sum.mono_neutral_left) (auto simp: R(3) [OF G] intro: z)
    finally have L: "?G * lhs (cut st) x = sum (term_of ?clipf x) ?S" .
    have "model_of (cut st) x = (uint (m_bound st) \<le> ?G * lhs (cut st) x)"
      by (simp add: model_of_def R(2) [OF G] ceil_div_le [OF Gp])
    also have "\<dots> = (uint (m_bound st) \<le> sum (term_of (m_coeffs st) x) ?S)"
      unfolding L by (rule clipping_keeps_models) simp
    finally show ?thesis by (simp add: model_of_def lhs_def)
  qed
qed

text \<open>
  C7 (amended). \<^verbatim>\<open>cut\<close> leaves the inequality (coefficients, bound, active variables)
  unchanged when some active coefficient has absolute value 1. Otherwise, for a bound
  below \<open>2\<^sup>3\<^sup>1\<close>, it first clips every coefficient whose absolute value exceeds the bound
  to \<open>\<plusminus>bound\<close>, takes \<open>g\<close> as the gcd of the clipped coefficients, and for \<open>g \<ge> 2\<close>
  divides every clipped coefficient by \<open>g\<close> and replaces \<open>B\<close> by \<open>\<lceil>B / g\<rceil>\<close>, written
  \<open>(B + g - 1) div g\<close>; for \<open>g < 2\<close> the bound stays and coefficients are at most
  clipped. For a bound below \<open>2\<^sup>3\<^sup>1\<close> the transformation preserves the set of 0/1 models.
\<close>

theorem cut_clips_then_divides:
  "((\<exists>v \<in> set (m_active_vars st). \<bar>m_coeffs st v\<bar> = 1) \<longrightarrow>
      m_coeffs (cut st) = m_coeffs st \<and> m_bound (cut st) = m_bound st \<and>
      m_active_vars (cut st) = m_active_vars st) \<and>
   (uint (m_bound st) < 2 ^ 31 \<longrightarrow>
      (\<forall>x. model_of (cut st) x = model_of st x) \<and>
      (\<not> (\<exists>v \<in> set (m_active_vars st). \<bar>m_coeffs st v\<bar> = 1) \<longrightarrow>
         (2 \<le> clipped_gcd st \<longrightarrow>
            (\<forall>v \<in> set (m_active_vars st).
               m_coeffs (cut st) v = clip_coeff (m_bound st) (m_coeffs st v) div clipped_gcd st) \<and>
            uint (m_bound (cut st)) = (uint (m_bound st) + clipped_gcd st - 1) div clipped_gcd st) \<and>
         (\<not> 2 \<le> clipped_gcd st \<longrightarrow>
            m_bound (cut st) = m_bound st \<and> m_active_vars (cut st) = m_active_vars st \<and>
            (\<forall>v. m_coeffs (cut st) v = m_coeffs st v \<or>
                 m_coeffs (cut st) v = clip_coeff (m_bound st) (m_coeffs st v)))))"
proof (intro conjI impI allI ballI)
  assume u: "\<exists>v \<in> set (m_active_vars st). \<bar>m_coeffs st v\<bar> = 1"
  then have "cut st = st\<lparr> m_overflow := m_overflow (cut st) \<rparr>" by (rule cut_unit)
  then show "m_coeffs (cut st) = m_coeffs st" "m_bound (cut st) = m_bound st"
    "m_active_vars (cut st) = m_active_vars st"
    by (metis ba_solver.select_convs ba_solver.surjective ba_solver.update_convs(12))+
next
  fix x assume "uint (m_bound st) < 2 ^ 31"
  then show "model_of (cut st) x = model_of st x" by (rule cut_keeps_models)
next
  fix v
  assume "uint (m_bound st) < 2 ^ 31" "\<not> (\<exists>v \<in> set (m_active_vars st). \<bar>m_coeffs st v\<bar> = 1)"
    "2 \<le> clipped_gcd st" "v \<in> set (m_active_vars st)"
  then show "m_coeffs (cut st) v = clip_coeff (m_bound st) (m_coeffs st v) div clipped_gcd st"
    by (rule cut_result(1))
next
  assume "uint (m_bound st) < 2 ^ 31" "\<not> (\<exists>v \<in> set (m_active_vars st). \<bar>m_coeffs st v\<bar> = 1)"
    "2 \<le> clipped_gcd st"
  then show "uint (m_bound (cut st)) = (uint (m_bound st) + clipped_gcd st - 1) div clipped_gcd st"
    by (rule cut_result(2))
next
  assume a: "uint (m_bound st) < 2 ^ 31" "\<not> (\<exists>v \<in> set (m_active_vars st). \<bar>m_coeffs st v\<bar> = 1)"
    "\<not> 2 \<le> clipped_gcd st"
  from cut_result(4) [OF a]
  show "m_bound (cut st) = m_bound st" "m_active_vars (cut st) = m_active_vars st"
    "\<And>v. m_coeffs (cut st) v = m_coeffs st v \<or>
         m_coeffs (cut st) v = clip_coeff (m_bound st) (m_coeffs st v)"
    by blast+
qed

lemmas cut_eval =
  cut_def get_abs_coeff_def get_coeff_def new_ba_solver_def INT_MIN_def UINT_MAX_def u_gcd_def
  normalize_active_coeffs_def divide_coeffs_def cdiv_def Let_def cut_example_def unit_example_def

lemma gcd_6_4: "gcd (6::int) 4 = 2"
  by (simp add: gcd_red_int [of 6 4] gcd_red_int [of 4 2])

text \<open>
  C7 (as stated, refuted). For \<open>6 x\<^sub>0 + 4 x\<^sub>1 \<ge> 4\<close> the gcd of the coefficients is 2, and
  the claim expects \<open>3 x\<^sub>0 + 2 x\<^sub>1 \<ge> 2\<close>. The code clips 6 to the bound 4 first, finds
  the gcd 4 and yields \<open>x\<^sub>0 + x\<^sub>1 \<ge> 1\<close>.
\<close>

theorem cut_spec_gcd_counterexample:
  "\<not> (m_coeffs (cut cut_example) 0 = spec_cut_coeff cut_example 0 \<and>
      uint (m_bound (cut cut_example)) = spec_cut_bound cut_example)"
  by (simp add: cut_eval spec_cut_coeff_def spec_cut_bound_def spec_gcd_def gcd_6_4)

theorem cut_clips_then_divides_witness:
  "uint (m_bound cut_example) < 2 ^ 31 \<and>
   \<not> (\<exists>v \<in> set (m_active_vars cut_example). \<bar>m_coeffs cut_example v\<bar> = 1) \<and>
   clipped_gcd cut_example = 4 \<and>
   m_coeffs (cut cut_example) 0 = 1 \<and> m_coeffs (cut cut_example) 1 = 1 \<and>
   uint (m_bound (cut cut_example)) = 1 \<and>
   model_of (cut cut_example) (\<lambda>v. v = 0) = model_of cut_example (\<lambda>v. v = 0) \<and>
   (\<exists>v \<in> set (m_active_vars unit_example). \<bar>m_coeffs unit_example v\<bar> = 1) \<and>
   m_coeffs (cut unit_example) = m_coeffs unit_example \<and>
   m_bound (cut unit_example) = m_bound unit_example"
proof -
  have h1: "uint (m_bound cut_example) < 2 ^ 31"
    by (simp add: cut_example_def new_ba_solver_def)
  have h2: "\<not> (\<exists>v \<in> set (m_active_vars cut_example). \<bar>m_coeffs cut_example v\<bar> = 1)"
    by (simp add: cut_example_def new_ba_solver_def)
  have h3: "clipped_gcd cut_example = 4"
    by (simp add: clipped_gcd_def clip_coeff_def cut_example_def new_ba_solver_def)
  have h4: "\<exists>v \<in> set (m_active_vars unit_example). \<bar>m_coeffs unit_example v\<bar> = 1"
    by (simp add: unit_example_def new_ba_solver_def)
  have c: "clip_coeff (m_bound cut_example) (m_coeffs cut_example 0) = 4"
    "clip_coeff (m_bound cut_example) (m_coeffs cut_example (Suc 0)) = 4"
    "uint (m_bound cut_example) = 4" "set (m_active_vars cut_example) = {0, 1}"
    by (simp_all add: clip_coeff_def cut_example_def new_ba_solver_def)
  show ?thesis
    using cut_clips_then_divides [of cut_example] cut_clips_then_divides [of unit_example] h1 h2 h3 h4
    by (simp add: c)
qed

section \<open>Exceptions of \<^verbatim>\<open>add_pb_ge\<close>\<close>

lemma init_watch_card_err: "init_watch_card c b st = Inl e \<Longrightarrow> e = out_of_bounds"
  by (auto simp: init_watch_card_def Let_def split: prod.splits if_splits)

lemma init_watch_pb_err: "init_watch_pb p b st = Inl e \<Longrightarrow> e = out_of_bounds"
  by (auto simp: init_watch_pb_def clear_watch_pb_def Let_def split: prod.splits if_splits sum.splits)

lemma init_watch_xor_err: "init_watch_xor E x b st = Inl e \<Longrightarrow> e = out_of_bounds"
  by (auto simp: init_watch_xor_def clear_watch_xor_def Let_def split: prod.splits if_splits sum.splits list.splits)

lemma init_watch_err: "init_watch E c b st = Inl e \<Longrightarrow> e = out_of_bounds"
  by (auto simp: init_watch_def lift_res_def split: if_splits constraint_obj.splits sum.splits
      dest: init_watch_card_err init_watch_pb_err init_watch_xor_err)

lemma add_constraint_err: "add_constraint E c st = Inl e \<Longrightarrow> e = out_of_bounds"
  by (auto simp: add_constraint_def Let_def split: if_splits sum.splits dest: init_watch_err)

lemma add_at_least_err: "add_at_least E lit lits k learned st = Inl e \<Longrightarrow> e = out_of_bounds"
  by (auto simp: add_at_least_def Let_def split: if_splits sum.splits dest: add_constraint_err)

lemma update_max_sum_err:
  "update_max_sum k wls m = Inl e \<Longrightarrow> e = default_exception"
  by (induction k wls m rule: update_max_sum.induct) (auto simp: Let_def split: if_splits sum.splits)

lemma update_max_sum_throws:
  "(\<exists>e. update_max_sum k wls m = Inl e) = (2 ^ 32 \<le> unat m + clipped_sum k wls)"
proof (induction k wls m rule: update_max_sum.induct)
  case (1 k max_sum)
  have "unat max_sum < 2 ^ 32" using unsigned_less [of max_sum, where ?'a = nat] by simp
  then show ?case by (simp add: clipped_sum_def)
next
  case (2 k a l wls max_sum)
  let ?a = "min k a"
  show ?case
  proof (cases "max_sum + ?a < max_sum")
    case True
    then have "\<not> max_sum \<le> max_sum + ?a" by simp
    then have "2 ^ 32 \<le> unat max_sum + unat ?a"
      by (simp add: no_olen_add_nat)
    then show ?thesis using True by (simp add: clipped_sum_def Let_def)
  next
    case False
    then have "max_sum \<le> max_sum + ?a" by simp
    then have u: "unat (max_sum + ?a) = unat max_sum + unat ?a"
      by (simp add: unat_plus_simple)
    show ?thesis
      using False 2 [OF refl False]
      by (auto simp: Let_def u clipped_sum_def split: sum.splits)
  qed
qed

lemma mk_pb_throws:
  "(mk_pb i lit wlits k = Inl default_exception) = (2 ^ 32 \<le> clipped_sum k wlits)"
  "mk_pb i lit wlits k = Inl e \<Longrightarrow> e = default_exception"
  using update_max_sum_throws [of k wlits 0] update_max_sum_err [of k wlits 0]
  by (auto simp: mk_pb_def split: sum.splits)

lemma add_pb_ge_failures:
  "(add_pb_ge E lit wlits k learned st = Inl default_exception) =
     (\<not> (k = 0 \<and> lit = null_literal) \<and> \<not> (list_all (\<lambda>wl. fst wl = 1) wlits \<or> k = 1) \<and>
      2 ^ 32 \<le> clipped_sum k wlits) \<and>
   add_pb_ge E lit wlits k learned st \<noteq> Inl exit_called"
proof (cases "k = 0 \<and> lit = null_literal")
  case True
  then show ?thesis by (simp add: add_pb_ge_def)
next
  case n0: False
  show ?thesis
  proof (cases "list_all (\<lambda>wl. fst wl = 1) wlits \<or> k = 1")
    case True
    then have "add_pb_ge E lit wlits k learned st = add_at_least E lit (map snd wlits) k learned st"
      using n0 by (auto simp: add_pb_ge_def)
    then show ?thesis
      using True add_at_least_err [of E lit "map snd wlits" k learned st] by auto
  next
    case nu: False
    show ?thesis
    proof (cases "mk_pb (m_constraint_id st) lit wlits k")
      case (Inl e)
      then have "add_pb_ge E lit wlits k learned st = Inl default_exception"
        using n0 nu mk_pb_throws(2) [of "m_constraint_id st" lit wlits k e]
        by (auto simp: add_pb_ge_def Let_def)
      then show ?thesis
        using n0 nu Inl mk_pb_throws [of "m_constraint_id st" lit wlits k] by auto
    next
      case (Inr p)
      then have ns: "\<not> 2 ^ 32 \<le> clipped_sum k wlits"
        using mk_pb_throws(1) [of "m_constraint_id st" lit wlits k] by auto
      have "add_pb_ge E lit wlits k learned st =
              (case add_constraint E (Pb (p\<lparr> m_learned := learned \<rparr>)) (st\<lparr> m_constraint_id := m_constraint_id st + 1 \<rparr>) of
                 Inl e \<Rightarrow> Inl e
               | Inr st2 \<Rightarrow> Inr (Some (m_constraint_id st), st2))"
        using n0 nu Inr by (auto simp: add_pb_ge_def Let_def)
      then show ?thesis
        using ns n0 nu by (auto split: sum.splits dest: add_constraint_err)
    qed
  qed
qed

lemma weight_simps [simp]: "weight [] = 0" "weight (wl # ws) = unat (fst wl) + weight ws"
  by (simp_all add: weight_def)

lemma pb_partition_shape:
  "pb_partition c bound i acc wls = (acc', wls') \<Longrightarrow>
   snd (snd (snd acc')) \<le> snd (snd (snd acc)) + (length wls - i) \<and>
   (bound < fst acc \<longrightarrow> fst acc' = fst acc)"
proof (induction c bound i acc wls rule: pb_partition.induct)
  case (1 c bound i acc wls)
  obtain slack slack1 nw j where acc: "acc = (slack, slack1, nw, j)" by (cases acc) auto
  show ?case
  proof (cases "i < length wls")
    case False
    then show ?thesis using "1.prems" by (simp add: pb_partition.simps [of c bound i _ wls])
  next
    case il: True
    show ?thesis
    proof (cases "lit_value c (snd (wls ! i)) \<noteq> l_false")
      case False
      then have "pb_partition c bound (i + 1) acc wls = (acc', wls')"
        using "1.prems" il acc by (simp add: pb_partition.simps [of c bound i _ wls])
      from "1.IH"(3) [OF il acc [symmetric] refl refl False this] il show ?thesis by auto
    next
      case nf: True
      let ?w = "(if j \<noteq> i then swap_at wls i j else wls)"
      have len: "length ?w = length wls" by (simp add: swap_at_def)
      show ?thesis
      proof (cases "slack \<le> bound")
        case True
        then have r: "pb_partition c bound (i + 1) (slack + fst (?w ! j), slack1, nw + 1, j + 1) ?w =
                    (acc', wls')"
          using "1.prems" il nf acc by (simp add: pb_partition.simps [of c bound i _ wls] Let_def)
        from "1.IH"(1) [OF il acc [symmetric] refl refl nf refl True r] len il True acc show ?thesis by auto
      next
        case False
        then have r: "pb_partition c bound (i + 1) (slack, slack1 + fst (?w ! j), nw, j + 1) ?w =
                    (acc', wls')"
          using "1.prems" il nf acc by (simp add: pb_partition.simps [of c bound i _ wls] Let_def)
        from "1.IH"(2) [OF il acc [symmetric] refl refl nf refl False r] len il False acc show ?thesis by auto
      qed
    qed
  qed
qed

lemma pb_partition_slack:
  "pb_partition c bound i acc wls = (acc', wls') \<Longrightarrow>
   snd (snd (snd acc)) = i \<Longrightarrow> length wls \<le> snd (snd (snd acc')) \<Longrightarrow>
   unat (fst acc) + weight (drop i wls) < 2 ^ 32 \<Longrightarrow> fst acc' < bound \<Longrightarrow>
   unat (fst acc') = unat (fst acc) + weight (drop i wls)"
proof (induction c bound i acc wls rule: pb_partition.induct)
  case (1 c bound i acc wls)
  obtain slack slack1 nw j where acc: "acc = (slack, slack1, nw, j)" by (cases acc) auto
  have ji: "j = i" using "1.prems"(2) acc by simp
  show ?case
  proof (cases "i < length wls")
    case False
    then show ?thesis using "1.prems" by (simp add: pb_partition.simps [of c bound i _ wls])
  next
    case il: True
    have dr: "weight (drop i wls) = unat (fst (wls ! i)) + weight (drop (Suc i) wls)"
      using il by (simp add: Cons_nth_drop_Suc [symmetric] weight_def)
    show ?thesis
    proof (cases "lit_value c (snd (wls ! i)) \<noteq> l_false")
      case False
      then have "pb_partition c bound (i + 1) acc wls = (acc', wls')"
        using "1.prems"(1) il acc by (simp add: pb_partition.simps [of c bound i _ wls])
      from pb_partition_shape [OF this] have "snd (snd (snd acc')) \<le> i + (length wls - (i + 1))"
        using acc ji by simp
      then show ?thesis using "1.prems"(3) il by simp
    next
      case nf: True
      let ?w = "(if j \<noteq> i then swap_at wls i j else wls)"
      have w: "?w = wls" using ji by simp
      show ?thesis
      proof (cases "slack \<le> bound")
        case True
        then have r: "pb_partition c bound (i + 1) (slack + fst (?w ! j), slack1, nw + 1, j + 1) ?w =
                    (acc', wls')"
          using "1.prems"(1) il nf acc by (simp add: pb_partition.simps [of c bound i _ wls] Let_def)
        have nowrap: "unat slack + unat (fst (wls ! i)) < 2 ^ 32"
          using "1.prems"(4) acc dr by simp
        then have u: "unat (slack + fst (wls ! i)) = unat slack + unat (fst (wls ! i))"
          by (simp add: unat_add_lem [THEN iffD1])
        have "unat (fst acc') = unat (slack + fst (?w ! j)) + weight (drop (i + 1) ?w)"
          using "1.IH"(1) [OF il acc [symmetric] refl refl nf refl True r] "1.prems"(3,4,5) ji w u acc dr by simp
        then show ?thesis using u w ji acc dr by simp
      next
        case False
        then have r: "pb_partition c bound (i + 1) (slack, slack1 + fst (?w ! j), nw, j + 1) ?w =
                    (acc', wls')"
          using "1.prems"(1) il nf acc by (simp add: pb_partition.simps [of c bound i _ wls] Let_def)
        from pb_partition_shape [OF r] False have "fst acc' = slack" by simp
        then show ?thesis using "1.prems"(5) False by simp
      qed
    qed
  qed
qed


lemma update_max_sum_weight:
  "update_max_sum k wls m = Inr (wls', m') \<Longrightarrow>
   weight wls' = clipped_sum k wls \<and> length wls' = length wls"
proof (induction k wls m arbitrary: wls' m' rule: update_max_sum.induct)
  case (1 k max_sum)
  then show ?case by (simp add: clipped_sum_def weight_def)
next
  case (2 k a l wls max_sum)
  from "2.prems" obtain ws1 where
    r: "update_max_sum k wls (max_sum + min k a) = Inr (ws1, m')" and
    w: "wls' = (min k a, l) # ws1" and nf: "\<not> max_sum + min k a < max_sum"
    by (auto simp: Let_def split: if_splits sum.splits)
  from "2.IH" [OF refl nf r] show ?case using w by (simp add: clipped_sum_def weight_def)
qed

lemma init_watch_card_in_band:
  assumes "unat (m_k c) \<le> length (m_lits c)" and "m_lit c = null_literal"
  shows "\<exists>r. init_watch_card c b st = Inr r"
  using assms
  by (auto simp: init_watch_card_def Let_def split: prod.splits)

lemma init_watch_pb_in_band:
  assumes k: "unat (m_k p) \<le> weight (m_wlits p)" and w: "weight (m_wlits p) < 2 ^ 32"
    and l: "m_lit p = null_literal" and n: "m_num_watch p = 0"
  shows "\<exists>r. init_watch_pb p b st = Inr r"
proof -
  let ?st1 = "unwatch_all (map snd (take (m_num_watch p) (m_wlits p))) (m_id p) st"
  have cw: "clear_watch_pb p st = Inr (p\<lparr> m_num_watch := 0 \<rparr>, ?st1)"
    using n by (simp add: clear_watch_pb_def)
  obtain slack slack1 nw j wls where
    pp: "pb_partition (s ?st1) (m_k p) 0 (0, 0, 0, 0) (m_wlits p) = ((slack, slack1, nw, j), wls)"
    by (metis prod_cases4 surj_pair)
  have "\<not> (slack < m_k p \<and> \<not> j < length (m_wlits p))"
  proof
    assume a: "slack < m_k p \<and> \<not> j < length (m_wlits p)"
    have "unat slack = weight (m_wlits p)"
      using pb_partition_slack [OF pp] a w by simp
    then show False using a k by (simp add: word_less_nat_alt)
  qed
  then show ?thesis
    using cw pp l by (auto simp: init_watch_pb_def Let_def)
qed


lemma add_constraint_in_band:
  assumes "obj_lit c = null_literal \<longrightarrow> (\<exists>r. init_watch E c True st1 = Inr r)"
    and "st1 = (if obj_learned c then st\<lparr> m_learned_v := m_learned_v st @ [obj_id c] \<rparr>
                 else st\<lparr> m_constraints := m_constraints st @ [obj_id c] \<rparr>)"
  shows "\<exists>st'. add_constraint E c st = Inr st'"
  using assms by (auto simp: add_constraint_def Let_def split: sum.splits)

lemma init_watch_in_band_card:
  assumes "unat (m_k c) \<le> length (m_lits c)" and "m_lit c = null_literal"
  shows "\<exists>r. init_watch E (Card c) b st = Inr r"
  using init_watch_card_in_band [OF assms, of b st]
  by (auto simp: init_watch_def lift_res_def)

lemma init_watch_in_band_pb:
  assumes "unat (m_k p) \<le> weight (m_wlits p)" and "weight (m_wlits p) < 2 ^ 32"
    and "m_lit p = null_literal" and "m_num_watch p = 0"
  shows "\<exists>r. init_watch E (Pb p) b st = Inr r"
  using init_watch_pb_in_band [OF assms, of b st]
  by (auto simp: init_watch_def lift_res_def)

lemma add_at_least_in_band:
  assumes "unat k \<le> length lits"
  shows "\<exists>h st'. add_at_least E lit lits k learned st = Inr (h, st')"
proof (cases "k = 1 \<and> lit = null_literal")
  case True
  then show ?thesis by (simp add: add_at_least_def)
next
  case False
  let ?c = "(mk_card (m_constraint_id st) lit lits k)\<lparr> m_learned := learned \<rparr>"
  let ?st = "st\<lparr> m_constraint_id := m_constraint_id st + 1 \<rparr>"
  have "obj_lit (Card ?c) = null_literal \<longrightarrow> (\<exists>r. init_watch E (Card ?c) True st1 = Inr r)" for st1
    using init_watch_in_band_card [of ?c E True st1] assms
    by (simp add: obj_lit_def mk_card_def)
  from add_constraint_in_band [OF this refl]
  obtain st' where "add_constraint E (Card ?c) ?st = Inr st'" by blast
  then show ?thesis using False by (simp add: add_at_least_def Let_def)
qed

lemma add_pb_ge_in_band:
  assumes nt: "\<not> (\<not> (k = 0 \<and> lit = null_literal) \<and> \<not> (list_all (\<lambda>wl. fst wl = 1) wlits \<or> k = 1) \<and>
               2 ^ 32 \<le> clipped_sum k wlits)"
    and reach: "if list_all (\<lambda>wl. fst wl = 1) wlits \<or> k = 1 then unat k \<le> length wlits
                else unat k \<le> clipped_sum k wlits"
  shows "\<exists>h st'. add_pb_ge E lit wlits k learned st = Inr (h, st')"
proof (cases "k = 0 \<and> lit = null_literal")
  case True
  then show ?thesis by (simp add: add_pb_ge_def)
next
  case n0: False
  show ?thesis
  proof (cases "list_all (\<lambda>wl. fst wl = 1) wlits \<or> k = 1")
    case True
    then have "add_pb_ge E lit wlits k learned st = add_at_least E lit (map snd wlits) k learned st"
      using n0 by (auto simp: add_pb_ge_def)
    then show ?thesis
      using True reach add_at_least_in_band [of k "map snd wlits" E lit learned st] by auto
  next
    case nu: False
    then have small: "clipped_sum k wlits < 2 ^ 32" and rk: "unat k \<le> clipped_sum k wlits"
      using nt n0 reach by auto
    obtain wls m where u: "update_max_sum k wlits 0 = Inr (wls, m)"
      using update_max_sum_throws [of k wlits 0] small
      by (cases "update_max_sum k wlits 0") auto
    let ?p = "\<lparr> m_id = m_constraint_id st, m_lit = lit, m_removed = False, m_learned = learned,
                m_glue = 0, m_psm = 0, m_k = k, m_wlits = wls, m_slack = 0, m_num_watch = 0,
                m_max_sum = m \<rparr>"
    let ?st = "st\<lparr> m_constraint_id := m_constraint_id st + 1 \<rparr>"
    have w: "weight wls = clipped_sum k wlits" using update_max_sum_weight [OF u] by simp
    have "obj_lit (Pb ?p) = null_literal \<longrightarrow> (\<exists>r. init_watch E (Pb ?p) True st1 = Inr r)" for st1
      using init_watch_in_band_pb [of ?p E True st1] w small rk
      by (simp add: obj_lit_def)
    from add_constraint_in_band [OF this refl]
    obtain st' where "add_constraint E (Pb ?p) ?st = Inr st'" by blast
    then show ?thesis
      using n0 nu u by (simp add: add_pb_ge_def mk_pb_def Let_def)
  qed
qed

text \<open>
  C5 (amended). \<^verbatim>\<open>add_pb_ge\<close> throws \<^verbatim>\<open>default_exception\<close> exactly when it builds a new pb
  constraint (not the null case \<open>k = 0\<close> without reifier, not all weights 1, \<open>k \<noteq> 1\<close>)
  and the sum of the clipped coefficients exceeds the unsigned 32-bit range. It never
  exits the process. In every other case the result is in-band, a handle or null, as long
  as the body can reach the threshold: \<open>k\<close> is at most the number of literals when a
  cardinality constraint is built, at most the sum of the clipped coefficients when a pb
  constraint is built. (For a larger threshold \<^verbatim>\<open>init_watch\<close> may read the body beyond its
  end, as \<open>add_pb_ge_beyond_body\<close> shows; the code has no defined result there.)
\<close>

theorem add_pb_ge_exception:
  "(add_pb_ge E lit wlits k learned st = Inl default_exception) =
     (\<not> (k = 0 \<and> lit = null_literal) \<and> \<not> (list_all (\<lambda>wl. fst wl = 1) wlits \<or> k = 1) \<and>
      2 ^ 32 \<le> clipped_sum k wlits) \<and>
   add_pb_ge E lit wlits k learned st \<noteq> Inl exit_called \<and>
   (\<not> (\<not> (k = 0 \<and> lit = null_literal) \<and> \<not> (list_all (\<lambda>wl. fst wl = 1) wlits \<or> k = 1) \<and>
       2 ^ 32 \<le> clipped_sum k wlits) \<and>
    (if list_all (\<lambda>wl. fst wl = 1) wlits \<or> k = 1 then unat k \<le> length wlits
     else unat k \<le> clipped_sum k wlits) \<longrightarrow>
    (\<exists>h st'. add_pb_ge E lit wlits k learned st = Inr (h, st')))"
  using add_pb_ge_failures [of E lit wlits k learned st]
    add_pb_ge_in_band [of k lit wlits E learned st]
  by blast

text \<open>
  Thresholds beyond the body: \<open>x\<^sub>1 + x\<^sub>2 \<ge> 5\<close> and \<open>2 x\<^sub>1 + 3 x\<^sub>2 \<ge> 7\<close> on a fresh solver.
  No literal is false, and \<^verbatim>\<open>init_watch\<close> reads the body at its length.
\<close>

lemma add_pb_ge_beyond_body:
  "add_pb_ge no_collaborators null_literal [(1, pos 1), (1, pos 2)] 5 False new_ba_solver =
     Inl out_of_bounds"
  "add_pb_ge no_collaborators null_literal [(2, pos 1), (3, pos 2)] 7 False new_ba_solver =
     Inl out_of_bounds"
  by (simp_all add: scenario_defs card_defs pb_defs)

text \<open>
  C5 (as stated, refuted). With the weights \<open>2\<^sup>3\<^sup>1\<close> and \<open>2\<^sup>3\<^sup>1\<close> and the threshold
  \<open>2\<^sup>3\<^sup>2 - 1\<close> the clipped coefficients sum to \<open>2\<^sup>3\<^sup>2\<close>, and the constructor of the pb
  constraint throws.
\<close>

theorem add_pb_ge_throws_counterexample:
  "add_pb_ge no_collaborators null_literal [(2147483648, pos 1), (2147483648, pos 2)] 4294967295 False
     new_ba_solver = Inl default_exception"
  by (simp add: add_pb_ge_def mk_pb_def Let_def null_literal_def)

theorem add_pb_ge_exception_witness:
  "clipped_sum 7 [(5, pos 1), (4, pos 2)] = 9 \<and>
   add_pb_ge no_collaborators null_literal [(5, pos 1), (4, pos 2)] 7 False new_ba_solver
     \<noteq> Inl default_exception \<and>
   (\<exists>h st'. add_pb_ge no_collaborators null_literal [(5, pos 1), (4, pos 2)] 7 False new_ba_solver
      = Inr (h, st'))"
  using add_pb_ge_exception [of no_collaborators null_literal "[(5, pos 1), (4, pos 2)]" 7 False new_ba_solver]
  by (simp add: clipped_sum_def)

section \<open>\<^verbatim>\<open>propagate\<close> on reified constraints\<close>














section \<open>\<^verbatim>\<open>resolve_conflict\<close> without extension propagations\<close>

text \<open>
  C9. When the count of extension propagations since the last \<^verbatim>\<open>pop\<close> is zero, in
  particular in the state that \<^verbatim>\<open>pop\<close> leaves, \<^verbatim>\<open>resolve_conflict\<close> returns \<open>l_undef\<close> and
  the whole state is as before: no resolution step has run, and the coefficients, the
  active variables, the bound and the marks are untouched.
\<close>

theorem resolve_conflict_no_propagations:
  "(m_num_propagations_since_pop st = 0 \<longrightarrow>
      resolve_conflict E dbg st = Some (Inr (l_undef, dbg, st))) \<and>
   (pop n st0 = Inr st \<longrightarrow> resolve_conflict E dbg st = Some (Inr (l_undef, dbg, st)))"
  by (auto simp: resolve_conflict_def resolve_conflict_core_def pop_def Let_def split: if_splits)

theorem resolve_conflict_no_propagations_witness:
  "pop 1 busy_scratchpad =
     Inr (busy_scratchpad\<lparr> m_constraint_to_reinit_lim := [], m_num_propagations_since_pop := 0 \<rparr>) \<and>
   m_num_propagations_since_pop
     (busy_scratchpad\<lparr> m_constraint_to_reinit_lim := [], m_num_propagations_since_pop := 0 \<rparr>) = 0 \<and>
   resolve_conflict no_collaborators False
     (busy_scratchpad\<lparr> m_constraint_to_reinit_lim := [], m_num_propagations_since_pop := 0 \<rparr>) =
     Some (Inr (l_undef, False,
       busy_scratchpad\<lparr> m_constraint_to_reinit_lim := [], m_num_propagations_since_pop := 0 \<rparr>))"
proof -
  let ?st = "busy_scratchpad\<lparr> m_constraint_to_reinit_lim := [], m_num_propagations_since_pop := 0 \<rparr>"
  have p: "pop 1 busy_scratchpad = Inr ?st"
    by (simp add: pop_def busy_scratchpad_def new_ba_solver_def)
  show ?thesis
    using resolve_conflict_no_propagations [of ?st no_collaborators False 1 busy_scratchpad] p
    by simp
qed

section \<open>\<^verbatim>\<open>active2card\<close>: the cardinality reduction\<close>









subsection \<open>The threshold is the least number of literals that can reach the bound\<close>










section \<open>Overflow aborts conflict resolution\<close>
















































lemma get_int_coeff_sticky: "m_overflow st \<Longrightarrow> m_overflow (snd (get_int_coeff v st))"
  by (simp add: get_int_coeff_def Let_def)










lemma persistent_scratch:
  assumes "persistent st' = persistent st" and "m_mark (s st') = m_mark (s st)"
    and "m_num_marks st' = m_num_marks st" and "m_overflow st \<longrightarrow> m_overflow st'"
    and "set (m_active_vars st') \<subseteq> set (m_active_vars st)"
  shows "scratch_step st st'"
  using assms by (simp add: scratch_step_def)










lemmas resolve_eval =
  resolve_step_def inc_bound_def inc_coeff_def process_antecedent_def is_marked_def mark_def
  reset_mark_def INT_MIN_def INT_MAX_def UINT_MAX_def Let_def pos_def neg_def new_ba_solver_def
  new_core_def get_abs_coeff_def get_coeff_def


lemmas finish_eval =
  cut_def u_gcd_def divide_coeffs_def cdiv_def normalize_active_coeffs_def next_resolvent_def
  dec_idx_def resolve_finish_def resolve_learn_def resolve_commit_def
  create_asserting_lemma.simps lemma_step_def var_value_def lvl_def null_literal_def
  null_bool_var_def active2card_def get_int_coeff_def no_collaborators_def insertion_sort_def
  compare_wlit_def card_trim.simps card_slack_def lit_value_def bail_out_def bail_loop.simps
  trail_at_def

lemma small_run:
  "(case resolve_loop no_collaborators (resolve_conflict_again no_collaborators) False (Some 1)
           (pos 3) (J_BINARY (pos 2)) 1 small_example of
      Some (Inr (r, d, st')) \<Rightarrow> r = l_true \<and> m_core_lemma (s st') = [pos 2]
    | _ \<Rightarrow> False)"
  by (simp add: resolve_loop.simps small_example_def overflow_example_def resolve_eval finish_eval)





end
